theory Spec2Isabelle
  imports Main
begin

section \<open>Python strings\<close>

text \<open>
  A Python \<open>str\<close> is a sequence of Unicode code points, so a character is modelled by
  its code point and a string by the list of its code points. ASCII literals of the
  source are written through \<open>lit\<close>.
\<close>

type_synonym pychar = nat
type_synonym pystr = "nat list"

definition lit :: "string \<Rightarrow> pystr" where
  "lit s = map of_char s"

definition nl :: pystr where
  "nl = [10]"

text \<open>
  \<open>str.isalnum\<close> is decided by the Unicode database of the Python runtime. On ASCII it
  is the letters and digits; for the other code points the database is the parameter
  \<open>U\<close>.
\<close>

definition ascii_alnum :: "pychar \<Rightarrow> bool" where
  "ascii_alnum c \<longleftrightarrow> (48 \<le> c \<and> c \<le> 57) \<or> (65 \<le> c \<and> c \<le> 90) \<or> (97 \<le> c \<and> c \<le> 122)"

definition isalnum :: "(pychar \<Rightarrow> bool) \<Rightarrow> pychar \<Rightarrow> bool" where
  "isalnum U c = (if c < 128 then ascii_alnum c else U c)"

text \<open>The code points that \<open>str.isspace\<close>, and so \<open>strip\<close> and \<open>rstrip\<close>, take as whitespace.\<close>

definition isspace :: "pychar \<Rightarrow> bool" where
  "isspace c \<longleftrightarrow>
     (9 \<le> c \<and> c \<le> 13) \<or> (28 \<le> c \<and> c \<le> 32) \<or> c = 133 \<or> c = 160 \<or> c = 5760 \<or>
     (8192 \<le> c \<and> c \<le> 8202) \<or> c = 8232 \<or> c = 8233 \<or> c = 8239 \<or> c = 8287 \<or> c = 12288"

definition lstrip :: "pystr \<Rightarrow> pystr" where
  "lstrip s = dropWhile isspace s"

definition rstrip :: "pystr \<Rightarrow> pystr" where
  "rstrip s = rev (dropWhile isspace (rev s))"

definition strip :: "pystr \<Rightarrow> pystr" where
  "strip s = lstrip (rstrip s)"

definition startswith :: "pystr \<Rightarrow> pystr \<Rightarrow> bool" where
  "startswith s p \<longleftrightarrow> take (length p) s = p"

text \<open>
  \<open>s.replace(old, new)\<close>: the occurrences of \<open>old\<close> are found from the left and do not
  overlap. (For an empty \<open>old\<close> Python inserts \<open>new\<close> around every character; the source
  only replaces non-empty literals, and the model leaves the string unchanged there.)
\<close>

function replace :: "pystr \<Rightarrow> pystr \<Rightarrow> pystr \<Rightarrow> pystr" where
  "replace old new [] = []"
| "replace old new (c # cs) =
     (if old \<noteq> [] \<and> startswith (c # cs) old
      then new @ replace old new (drop (length old) (c # cs))
      else c # replace old new cs)"
  by pat_completeness auto
termination
  by (relation "measure (\<lambda>(old, new, s). length s)") auto

text \<open>\<open>s.split('\\n')\<close>: the pieces between line feeds; never an empty list.\<close>

fun split_nl :: "pystr \<Rightarrow> pystr list" where
  "split_nl [] = [[]]"
| "split_nl (c # cs) =
     (if c = 10 then [] # split_nl cs
      else (c # hd (split_nl cs)) # tl (split_nl cs))"

fun join_nl :: "pystr list \<Rightarrow> pystr" where
  "join_nl [] = []"
| "join_nl [l] = l"
| "join_nl (l # ls) = l @ 10 # join_nl ls"

text \<open>Decimal rendering of integers, as \<open>str\<close> and the format codes of \<open>strftime\<close> give it.\<close>

function show_nat :: "nat \<Rightarrow> pystr" where
  "show_nat n = (if n < 10 then [48 + n] else show_nat (n div 10) @ [48 + n mod 10])"
  by pat_completeness auto
termination
  by (relation "measure (\<lambda>n. n)") auto

declare show_nat.simps [simp del]

definition show_int :: "int \<Rightarrow> pystr" where
  "show_int i = (if i < 0 then 45 # show_nat (nat (- i)) else show_nat (nat i))"

definition zero_pad :: "nat \<Rightarrow> pystr \<Rightarrow> pystr" where
  "zero_pad w s = replicate (w - length s) 48 @ s"

text \<open>The scalar values of a JSON payload and their \<open>str()\<close>; floats are outside the model.\<close>

datatype pyval = PNone | PBool bool | PInt int | PStr pystr

fun py_str :: "pyval \<Rightarrow> pystr" where
  "py_str PNone = lit ''None''"
| "py_str (PBool b) = (if b then lit ''True'' else lit ''False'')"
| "py_str (PInt i) = show_int i"
| "py_str (PStr s) = s"

section \<open>Exceptions\<close>

text \<open>
  The subclasses of \<open>Exception\<close> that the source raises itself or by a failed lookup,
  \<open>UnicodeEncodeError\<close> with the message of the codec that raised it, and \<open>Failure\<close> for
  what the libraries raise otherwise (requests, PIL, os, the remote job), with its
  message. \<open>exn_str\<close> is \<open>str(e)\<close>, which returns for each of them.
\<close>

datatype exn =
    IOError pystr
  | KeyError pystr
  | UnboundLocalError pystr
  | UnicodeEncodeError pystr
  | Failure pystr

fun exn_str :: "exn \<Rightarrow> pystr" where
  "exn_str (IOError m) = m"
| "exn_str (KeyError k) = lit [CHR 0x27] @ k @ lit [CHR 0x27]"
| "exn_str (UnboundLocalError v) =
     lit ''cannot access local variable '' @ lit [CHR 0x27] @ v @ lit [CHR 0x27] @
     lit '' where it is not associated with a value''"
| "exn_str (UnicodeEncodeError m) = m"
| "exn_str (Failure m) = m"

section \<open>Wall-clock time\<close>

record datetime =
  year :: nat
  month :: nat
  day :: nat
  hour :: nat
  minute :: nat
  second :: nat

text \<open>\<open>strftime("%Y-%m-%d-%H%M")\<close> and \<open>strftime("%Y-%m-%d %H:%M:%S")\<close>.\<close>

definition strftime_filename :: "datetime \<Rightarrow> pystr" where
  "strftime_filename t =
     zero_pad 4 (show_nat (year t)) @ lit ''-'' @ zero_pad 2 (show_nat (month t)) @ lit ''-'' @
     zero_pad 2 (show_nat (day t)) @ lit ''-'' @ zero_pad 2 (show_nat (hour t)) @
     zero_pad 2 (show_nat (minute t))"

definition strftime_seconds :: "datetime \<Rightarrow> pystr" where
  "strftime_seconds t =
     zero_pad 4 (show_nat (year t)) @ lit ''-'' @ zero_pad 2 (show_nat (month t)) @ lit ''-'' @
     zero_pad 2 (show_nat (day t)) @ lit '' '' @ zero_pad 2 (show_nat (hour t)) @ lit '':'' @
     zero_pad 2 (show_nat (minute t)) @ lit '':'' @ zero_pad 2 (show_nat (second t))"

section \<open>Filename sanitization (\<open>save_image_and_markdown\<close>, lines 113-114)\<close>

text \<open>
  \<^verbatim>\<open>safe_prompt = "".join(c for c in prompt if c.isalnum() or c in (' ', '-', '_')).rstrip()\<close>
  \<^verbatim>\<open>safe_prompt = safe_prompt[:50]\<close>
\<close>

definition keep_char :: "(pychar \<Rightarrow> bool) \<Rightarrow> pychar \<Rightarrow> bool" where
  "keep_char U c \<longleftrightarrow> isalnum U c \<or> c = 32 \<or> c = 45 \<or> c = 95"

definition safe_prompt :: "(pychar \<Rightarrow> bool) \<Rightarrow> pystr \<Rightarrow> pystr" where
  "safe_prompt U prompt = take 50 (rstrip (filter (keep_char U) prompt))"

section \<open>The metadata document (\<open>format_markdown\<close>, lines 81-101)\<close>

text \<open>
  The generation result is a dictionary. A key that is missing is \<open>None\<close> in the record;
  the values are of any type \<open>'v\<close>, rendered by the runtime's \<open>str\<close>, the parameter
  \<open>str_of\<close>. An entry of the images list is a dictionary too, read at its key \<open>url\<close>.
\<close>

record 'v image_info =
  img_url :: "'v option"

record 'v generation_result =
  images :: "'v image_info list option"
  seed :: "'v option"
  has_nsfw_concepts :: "'v option"

text \<open>\<open>result.get(key, 'Not specified')\<close>\<close>

definition get_or_not_specified :: "('v \<Rightarrow> pystr) \<Rightarrow> 'v option \<Rightarrow> pystr" where
  "get_or_not_specified str_of v =
     (case v of None \<Rightarrow> lit ''Not specified'' | Some x \<Rightarrow> str_of x)"

text \<open>
  \<^verbatim>\<open>result['images'][0]['url'] if 'images' in result and result['images'] else 'No image URL available'\<close>
  An entry without the key \<open>url\<close> raises \<open>KeyError\<close>.
\<close>

definition image_url_text :: "('v \<Rightarrow> pystr) \<Rightarrow> 'v generation_result \<Rightarrow> exn + pystr" where
  "image_url_text str_of result =
     (case images result of
        None \<Rightarrow> Inr (lit ''No image URL available'')
      | Some [] \<Rightarrow> Inr (lit ''No image URL available'')
      | Some (img # _) \<Rightarrow>
          (case img_url img of
             None \<Rightarrow> Inl (KeyError (lit ''url''))
           | Some u \<Rightarrow> Inr (str_of u)))"

text \<open>
  The f-string, piece by piece. \<open>now\<close> is the value of \<open>datetime.now()\<close> at the call.
\<close>

definition format_markdown ::
  "('v \<Rightarrow> pystr) \<Rightarrow> datetime \<Rightarrow> pystr \<Rightarrow> 'v generation_result \<Rightarrow> pystr \<Rightarrow> 'v \<Rightarrow> 'v \<Rightarrow> 'v \<Rightarrow> 'v
     \<Rightarrow> exn + pystr" where
  "format_markdown str_of now prompt result model image_size num_inference_steps
       guidance_scale safety_tolerance =
     (case image_url_text str_of result of
        Inl e \<Rightarrow> Inl e
      | Inr url_text \<Rightarrow> Inr (
          lit ''# Image Generation Results'' @ nl @
          nl @
          lit ''## Prompt'' @ nl @
          prompt @ nl @
          nl @
          lit ''## Generation Details'' @ nl @
          lit ''- **Date and Time:** '' @ strftime_seconds now @ nl @
          lit ''- **Model:** '' @ model @ nl @
          lit ''- **Seed:** '' @ get_or_not_specified str_of (seed result) @ nl @
          lit ''- **NSFW Concepts Detected:** '' @
             get_or_not_specified str_of (has_nsfw_concepts result) @ nl @
          lit ''- **Image Size:** '' @ str_of image_size @ nl @
          lit ''- **Number of Inference Steps:** '' @ str_of num_inference_steps @ nl @
          lit ''- **Guidance Scale:** '' @ str_of guidance_scale @ nl @
          lit ''- **Safety Tolerance:** '' @ str_of safety_tolerance @ nl @
          nl @
          lit ''## Image URL'' @ nl @
          url_text @ nl @
          nl))"

text \<open>
  The template of the specification (section 6), line by line, for the texts of its
  placeholders.
\<close>

record template_fields =
  f_prompt :: pystr
  f_datetime :: pystr
  f_model :: pystr
  f_seed :: pystr
  f_nsfw :: pystr
  f_image_size :: pystr
  f_steps :: pystr
  f_guidance_scale :: pystr
  f_safety_tolerance :: pystr
  f_image_url :: pystr

definition spec_template :: "template_fields \<Rightarrow> pystr" where
  "spec_template f = join_nl
     [lit ''# Image Generation Results'',
      [],
      lit ''## Prompt'',
      f_prompt f,
      [],
      lit ''## Generation Details'',
      lit ''- **Date and Time:** '' @ f_datetime f,
      lit ''- **Model:** '' @ f_model f,
      lit ''- **Seed:** '' @ f_seed f,
      lit ''- **NSFW Concepts Detected:** '' @ f_nsfw f,
      lit ''- **Image Size:** '' @ f_image_size f,
      lit ''- **Number of Inference Steps:** '' @ f_steps f,
      lit ''- **Guidance Scale:** '' @ f_guidance_scale f,
      lit ''- **Safety Tolerance:** '' @ f_safety_tolerance f,
      [],
      lit ''## Image URL'',
      f_image_url f]"

text \<open>
  Re-parsing the document, as the specification words it: the text of the Prompt section
  (the lines after the heading \<open>## Prompt\<close> up to the next heading of the template, less the
  blank line that closes the section) and the value of the Model field (the first line of
  the Generation Details section that starts with the field's label).
\<close>

definition spec_prompt_section :: "pystr \<Rightarrow> pystr" where
  "spec_prompt_section doc =
     join_nl (butlast (takeWhile (\<lambda>l. l \<noteq> lit ''## Generation Details'')
       (tl (dropWhile (\<lambda>l. l \<noteq> lit ''## Prompt'') (split_nl doc)))))"

definition spec_model_field :: "pystr \<Rightarrow> pystr option" where
  "spec_model_field doc =
     map_option (drop (length (lit ''- **Model:** '')))
       (find (\<lambda>l. startswith l (lit ''- **Model:** ''))
          (dropWhile (\<lambda>l. l \<noteq> lit ''## Generation Details'')
             (tl (dropWhile (\<lambda>l. l \<noteq> lit ''## Prompt'') (split_nl doc)))))"

section \<open>Exporting a result (\<open>save_image_and_markdown\<close>, lines 103-143)\<close>

text \<open>\<open>os.path.join\<close> of two components, on POSIX.\<close>

definition os_path_join :: "pystr \<Rightarrow> pystr \<Rightarrow> pystr" where
  "os_path_join a b =
     (if startswith b (lit ''/'') then b
      else if a = [] \<or> last a = 47 then a @ b
      else a @ lit ''/'' @ b)"

text \<open>
  What the function reaches outside itself: the HTTP client, the image library, the
  file system and the clock. The file system and the clock are a state \<open>'s\<close> on which the
  operations act; an operation that raises still returns the state it leaves behind.
  \<open>script_dir\<close> is \<open>os.path.dirname(__file__)\<close>. The standard output is a text stream
  with an encoding: \<open>stdout_encodes\<close> tells which characters beyond ASCII the encoding
  has (every encoding has ASCII), and \<open>stdout_error\<close> is the message of the
  \<open>UnicodeEncodeError\<close> that its codec raises for a text it cannot encode.
\<close>

record response =
  status_code :: int
  content :: "nat list"

record ('s, 'i, 'v) world =
  script_dir :: pystr
  unicode_alnum :: "pychar \<Rightarrow> bool"
  runtime_str :: "'v \<Rightarrow> pystr"
  datetime_now :: "'s \<Rightarrow> datetime"
  http_get :: "pystr \<Rightarrow> exn + response"
  image_open :: "nat list \<Rightarrow> exn + 'i"
  makedirs :: "pystr \<Rightarrow> 's \<Rightarrow> 's \<times> exn option"
  image_save :: "'i \<Rightarrow> pystr \<Rightarrow> 's \<Rightarrow> 's \<times> exn option"
  write_text :: "pystr \<Rightarrow> pystr \<Rightarrow> 's \<Rightarrow> 's \<times> exn option"
  getsize :: "pystr \<Rightarrow> 's \<Rightarrow> exn + nat"
  stdout_encodes :: "pychar \<Rightarrow> bool"
  stdout_error :: "pystr \<Rightarrow> pystr"

definition filename_base :: "('s, 'i, 'v) world \<Rightarrow> 's \<Rightarrow> pystr \<Rightarrow> pystr" where
  "filename_base w s prompt =
     strftime_filename (datetime_now w s) @ lit ''_'' @ safe_prompt (unicode_alnum w) prompt"

definition images_folder :: "('s, 'i, 'v) world \<Rightarrow> pystr" where
  "images_folder w = os_path_join (script_dir w) (lit ''images'')"

text \<open>The body of the \<open>try\<close> block: the state it leaves, and what it raises or returns.\<close>

definition save_body ::
  "('s, 'i, 'v) world \<Rightarrow> 's \<Rightarrow> pystr \<Rightarrow> pystr \<Rightarrow> 'v generation_result \<Rightarrow> pystr \<Rightarrow> 'v \<Rightarrow> 'v \<Rightarrow> 'v \<Rightarrow> 'v
     \<Rightarrow> 's \<times> (exn + pystr \<times> pystr)" where
  "save_body w s url prompt result model image_size num_inference_steps guidance_scale
       safety_tolerance =
     (case http_get w url of
        Inl e \<Rightarrow> (s, Inl e)
      | Inr resp \<Rightarrow>
          if status_code resp = 200 then
            (case image_open w (content resp) of
               Inl e \<Rightarrow> (s, Inl e)
             | Inr img \<Rightarrow>
                 let base = filename_base w s prompt in
                 (case makedirs w (images_folder w) s of
                    (s1, Some e) \<Rightarrow> (s1, Inl e)
                  | (s1, None) \<Rightarrow>
                      let full_image_path = os_path_join (images_folder w) (base @ lit ''.png'') in
                      (case image_save w img full_image_path s1 of
                         (s2, Some e) \<Rightarrow> (s2, Inl e)
                       | (s2, None) \<Rightarrow>
                           let full_markdown_path =
                                 os_path_join (images_folder w) (base @ lit ''.md'') in
                           (case format_markdown (runtime_str w) (datetime_now w s2) prompt result model
                                   image_size num_inference_steps guidance_scale
                                   safety_tolerance of
                              Inl e \<Rightarrow> (s2, Inl e)
                            | Inr markdown_content \<Rightarrow>
                                (case write_text w full_markdown_path markdown_content s2 of
                                   (s3, Some e) \<Rightarrow> (s3, Inl e)
                                 | (s3, None) \<Rightarrow>
                                     (case getsize w full_markdown_path s3 of
                                        Inl e \<Rightarrow> (s3, Inl e)
                                      | Inr n \<Rightarrow>
                                          if n = 0 then
                                            (s3, Inl (IOError
                                               (lit ''Markdown file is empty after writing'')))
                                          else
                                            (s3, Inr (full_image_path,
                                                      full_markdown_path))))))))
          else
            (s, Inl (IOError (lit ''Failed to download image. Status code: '' @
                              show_int (status_code resp)))))"

text \<open>The two paths that the body writes to.\<close>

definition image_path :: "('s, 'i, 'v) world \<Rightarrow> 's \<Rightarrow> pystr \<Rightarrow> pystr" where
  "image_path w s prompt =
     os_path_join (images_folder w) (filename_base w s prompt @ lit ''.png'')"

definition markdown_path :: "('s, 'i, 'v) world \<Rightarrow> 's \<Rightarrow> pystr \<Rightarrow> pystr" where
  "markdown_path w s prompt =
     os_path_join (images_folder w) (filename_base w s prompt @ lit ''.md'')"

text \<open>
  \<open>print(text)\<close>: the text is encoded as a whole before anything is written, so the
  call either prints the line or raises and prints nothing.
\<close>

definition stdout_accepts :: "('s, 'i, 'v) world \<Rightarrow> pystr \<Rightarrow> bool" where
  "stdout_accepts w text \<longleftrightarrow> list_all (\<lambda>c. c < 128 \<or> stdout_encodes w c) text"

definition print_line :: "('s, 'i, 'v) world \<Rightarrow> pystr \<Rightarrow> pystr list \<times> exn option" where
  "print_line w text =
     (if stdout_accepts w text then ([text], None)
      else ([], Some (UnicodeEncodeError (stdout_error w text))))"

text \<open>
  The whole function: \<open>except Exception\<close> prints the error and returns \<open>(None, None)\<close>.
  The \<open>print\<close> stands in the handler, outside every \<open>try\<close>, so what it raises reaches the
  caller. The result is the state left behind, the lines printed, and what the call
  raises (\<open>Inl\<close>) or returns (\<open>Inr\<close>) to its caller.
\<close>

definition save_image_and_markdown ::
  "('s, 'i, 'v) world \<Rightarrow> 's \<Rightarrow> pystr \<Rightarrow> pystr \<Rightarrow> 'v generation_result \<Rightarrow> pystr \<Rightarrow> 'v \<Rightarrow> 'v \<Rightarrow> 'v \<Rightarrow> 'v
     \<Rightarrow> 's \<times> pystr list \<times> (exn + pystr option \<times> pystr option)" where
  "save_image_and_markdown w s url prompt result model image_size num_inference_steps
       guidance_scale safety_tolerance =
     (case save_body w s url prompt result model image_size num_inference_steps
             guidance_scale safety_tolerance of
        (s', Inr (full_image_path, full_markdown_path)) \<Rightarrow>
          (s', [], Inr (Some full_image_path, Some full_markdown_path))
      | (s', Inl e) \<Rightarrow>
          (case print_line w (lit ''Error in save_image_and_markdown: '' @ exn_str e) of
             (printed, None) \<Rightarrow> (s', printed, Inr (None, None))
           | (printed, Some e') \<Rightarrow> (s', printed, Inl e')))"

text \<open>
  A plain file system, in which every operation succeeds: a file is what was last written
  to its path, and the size of a text file is the length of its UTF-8 encoding. The
  values are the scalars of \<open>pyval\<close>, and its Unicode database names no alphanumeric
  character beyond ASCII, which the ASCII prompts of the scenarios never consult. Its
  standard output encodes every character.
\<close>

datatype 'i file_data = ImageFile 'i | TextFile pystr

record 'i disk =
  clock :: datetime
  dirs :: "pystr list"
  files :: "pystr \<Rightarrow> 'i file_data option"

definition utf8_length :: "pychar \<Rightarrow> nat" where
  "utf8_length c = (if c < 128 then 1 else if c < 2048 then 2 else if c < 65536 then 3 else 4)"

definition disk_getsize :: "pystr \<Rightarrow> 'i disk \<Rightarrow> exn + nat" where
  "disk_getsize p d =
     (case files d p of
        None \<Rightarrow> Inl (Failure (lit ''No such file or directory''))
      | Some (TextFile t) \<Rightarrow> Inr (sum_list (map utf8_length t))
      | Some (ImageFile i) \<Rightarrow> Inr 1)"

definition disk_world ::
  "pystr \<Rightarrow> (pystr \<Rightarrow> exn + response) \<Rightarrow> (nat list \<Rightarrow> exn + 'i) \<Rightarrow> ('i disk, 'i, pyval) world" where
  "disk_world dir get decode =
     \<lparr> script_dir = dir,
       unicode_alnum = (\<lambda>c. False),
       runtime_str = py_str,
       datetime_now = clock,
       http_get = get,
       image_open = decode,
       makedirs = (\<lambda>p d. (d\<lparr>dirs := p # dirs d\<rparr>, None)),
       image_save = (\<lambda>i p d. (d\<lparr>files := (files d)(p \<mapsto> ImageFile i)\<rparr>, None)),
       write_text = (\<lambda>p t d. (d\<lparr>files := (files d)(p \<mapsto> TextFile t)\<rparr>, None)),
       getsize = disk_getsize,
       stdout_encodes = (\<lambda>c. True),
       stdout_error = (\<lambda>text. lit ''codec cannot encode characters'') \<rparr>"

section \<open>Running the job behind the spinner (\<open>run_with_spinner\<close>, lines 70-75 and 260-265)\<close>

text \<open>
  The runner and the job are two tasks of one event loop, so the job only advances while
  the runner is suspended in \<open>await asyncio.sleep(3)\<close>. A job is modelled by the state in
  which the event loop leaves its task at each resumption of the runner: \<open>job k\<close> is the
  state after the runner's \<open>k\<close>-th suspension. A job that never settles is \<open>Pending\<close>
  throughout.
\<close>

datatype 'r task_state = Pending | Finished "exn + 'r"

type_synonym 'r job = "nat \<Rightarrow> 'r task_state"

text \<open>
  \<open>asyncio.create_task\<close> only schedules the coroutine: the task has not run before the
  caller suspends for the first time, whatever the coroutine does.
\<close>

definition create_task :: "'r job \<Rightarrow> 'r job" where
  "create_task coro = (\<lambda>k. if k = 0 then Pending else coro k)"

definition task_done :: "'r task_state \<Rightarrow> bool" where
  "task_done st \<longleftrightarrow> st \<noteq> Pending"

definition spinner_messages :: "pystr list" where
  "spinner_messages =
     [127912 # lit '' Mixing colors...'',
      10024 # lit '' Sprinkling creativity dust...'',
      128396 # 65039 # lit '' Applying artistic strokes...'',
      127752 # lit '' Infusing with vibrant hues...'',
      128269 # lit '' Focusing on details...'',
      128444 # 65039 # lit '' Framing the masterpiece...'',
      127775 # lit '' Adding that special touch...'',
      127917 # lit '' Bringing characters to life...'',
      127961 # 65039 # lit '' Building the scene...'',
      127749 # lit '' Setting the perfect mood...'']"

text \<open>\<open>itertools.cycle(messages)\<close>: what the \<open>i\<close>-th call of \<open>next\<close> returns.\<close>

definition cycle_spinner_messages :: "nat \<Rightarrow> pystr" where
  "cycle_spinner_messages i = spinner_messages ! (i mod length spinner_messages)"

text \<open>
  What the runner does, in order. Each event carries the number of suspensions of the
  runner that precede it: \<open>Check k b\<close> is \<open>task.done()\<close> returning \<open>b\<close>, \<open>Tick k m\<close> is
  \<open>spinner_placeholder.text(m)\<close>, \<open>Sleep k d\<close> is \<open>await asyncio.sleep(d)\<close>.
\<close>

datatype event = Check nat bool | Tick nat pystr | Sleep nat nat

text \<open>
  The \<open>while\<close> loop and the final \<open>return await task\<close>, with fuel for the number of times
  the loop condition is evaluated. The result is the events so far and, once the runner
  has returned, what it returned (\<open>Inr\<close>) or raised (\<open>Inl\<close>); \<open>None\<close> while it still polls.
\<close>

fun spinner_loop ::
  "nat \<Rightarrow> 'r job \<Rightarrow> (nat \<Rightarrow> pystr) \<Rightarrow> nat \<Rightarrow> event list \<times> (exn + 'r) option" where
  "spinner_loop 0 task message_cycle k = ([], None)"
| "spinner_loop (Suc fuel) task message_cycle k =
     (case task k of
        Finished outcome \<Rightarrow> ([Check k True], Some outcome)
      | Pending \<Rightarrow>
          (case spinner_loop fuel task message_cycle (Suc k) of
             (events, r) \<Rightarrow>
               (Check k False # Tick k (message_cycle k) # Sleep k 3 # events, r)))"

definition run_with_spinner ::
  "nat \<Rightarrow> 'r job \<Rightarrow> (nat \<Rightarrow> pystr) \<Rightarrow> event list \<times> (exn + 'r) option" where
  "run_with_spinner fuel generation_coroutine message_cycle =
     spinner_loop fuel (create_task generation_coroutine) message_cycle 0"

text \<open>
  The copy inside \<open>main\<close>, which closes over a fresh message cycle; what is proved of
  \<open>run_with_spinner\<close> for every message cycle holds of it.
\<close>

definition run_with_spinner_inner :: "nat \<Rightarrow> 'r job \<Rightarrow> event list \<times> (exn + 'r) option" where
  "run_with_spinner_inner fuel generation_coroutine =
     run_with_spinner fuel generation_coroutine cycle_spinner_messages"

text \<open>Reading a trace.\<close>

text \<open>Every tick directly follows a completion check that returned \<open>False\<close>.\<close>

fun ticks_guarded :: "event list \<Rightarrow> bool" where
  "ticks_guarded [] = True"
| "ticks_guarded (Check k False # Tick k' m # es) = (k = k' \<and> ticks_guarded es)"
| "ticks_guarded (Tick k m # es) = False"
| "ticks_guarded (e # es) = ticks_guarded es"

text \<open>The task has settled by the \<open>k\<close>-th suspension of the runner.\<close>

definition settled_by :: "'r job \<Rightarrow> nat \<Rightarrow> bool" where
  "settled_by task k \<longleftrightarrow> list_ex (\<lambda>j. task_done (task j)) [0..<Suc k]"

text \<open>The polling rounds \<open>k, ..., k + n - 1\<close>, each a failed check, a tick and a sleep.\<close>

fun polling_rounds :: "(nat \<Rightarrow> pystr) \<Rightarrow> nat \<Rightarrow> nat \<Rightarrow> event list" where
  "polling_rounds message_cycle k 0 = []"
| "polling_rounds message_cycle k (Suc n) =
     Check k False # Tick k (message_cycle k) # Sleep k 3 #
     polling_rounds message_cycle (Suc k) n"

section \<open>Reading the tuned prompt (\<open>main\<close>, lines 206-225)\<close>

text \<open>
  The local variables that the loop over the lines assigns. \<open>tuned_prompt\<close> lives in the
  session state and holds a string before the loop; \<open>explanation\<close> and \<open>suggestions\<close> are
  locals of \<open>main\<close>, unbound (\<open>None\<close>) until a line assigns them.
\<close>

record tune_vars =
  tuned_prompt :: pystr
  explanation :: "pystr option"
  suggestions :: "pystr option"

definition tune_section :: "tune_vars \<Rightarrow> pystr \<Rightarrow> tune_vars" where
  "tune_section v section_line =
     (if startswith section_line (lit ''PROMPT:'') then
        v\<lparr>tuned_prompt := strip (replace (lit ''PROMPT:'') [] section_line)\<rparr>
      else if startswith section_line (lit ''EXPLANATION:'') then
        v\<lparr>explanation := Some (strip (replace (lit ''EXPLANATION:'') [] section_line))\<rparr>
      else if startswith section_line (lit ''SUGGESTIONS:'') then
        v\<lparr>suggestions := Some (strip (replace (lit ''SUGGESTIONS:'') [] section_line))\<rparr>
      else v)"

definition tune_sections :: "pystr \<Rightarrow> pystr \<Rightarrow> tune_vars" where
  "tune_sections previous_tuned_prompt tuned_result =
     foldl tune_section
       \<lparr>tuned_prompt = previous_tuned_prompt, explanation = None, suggestions = None\<rparr>
       (split_nl tuned_result)"

text \<open>
  The display that follows the loop: the texts written to the page, in order, and the
  exception that ends the block, if any. Reading an unbound local raises
  \<open>UnboundLocalError\<close>, which the enclosing \<open>except Exception\<close> reports with \<open>st.error\<close>.
\<close>

definition tune_display :: "tune_vars \<Rightarrow> pystr list \<times> exn option" where
  "tune_display v =
     (case explanation v of
        None \<Rightarrow>
          ([lit ''Tuned Prompt:'', tuned_prompt v, lit ''Explanation of changes:''],
           Some (UnboundLocalError (lit ''explanation'')))
      | Some e \<Rightarrow>
          (case suggestions v of
             None \<Rightarrow>
               ([lit ''Tuned Prompt:'', tuned_prompt v, lit ''Explanation of changes:'', e,
                 lit ''Additional suggestions:''],
                Some (UnboundLocalError (lit ''suggestions'')))
           | Some g \<Rightarrow>
               ([lit ''Tuned Prompt:'', tuned_prompt v, lit ''Explanation of changes:'', e,
                 lit ''Additional suggestions:'', g],
                None)))"

definition tune_prompt_view :: "pystr \<Rightarrow> pystr \<Rightarrow> pystr list \<times> exn option" where
  "tune_prompt_view previous_tuned_prompt tuned_result =
     tune_display (tune_sections previous_tuned_prompt tuned_result)"

text \<open>The field a line gives: its prefix removed wherever it occurs, then stripped.\<close>

definition section_text :: "pystr \<Rightarrow> pystr \<Rightarrow> pystr" where
  "section_text prefix section_line = strip (replace prefix [] section_line)"

definition matching_lines :: "pystr \<Rightarrow> pystr \<Rightarrow> pystr list" where
  "matching_lines prefix tuned_result =
     filter (\<lambda>l. startswith l prefix) (split_nl tuned_result)"

section \<open>Properties named by the specification\<close>

text \<open>The texts that the document must embed, for a given text of the Image URL section.\<close>

definition document_fields ::
  "('v \<Rightarrow> pystr) \<Rightarrow> datetime \<Rightarrow> pystr \<Rightarrow> 'v generation_result \<Rightarrow> pystr \<Rightarrow> 'v \<Rightarrow> 'v \<Rightarrow> 'v \<Rightarrow> 'v
     \<Rightarrow> pystr \<Rightarrow> template_fields" where
  "document_fields str_of tm prompt result model image_size num_inference_steps
       guidance_scale safety_tolerance url_text =
     \<lparr> f_prompt = prompt,
       f_datetime = strftime_seconds tm,
       f_model = model,
       f_seed = (case seed result of None \<Rightarrow> lit ''Not specified'' | Some v \<Rightarrow> str_of v),
       f_nsfw =
         (case has_nsfw_concepts result of None \<Rightarrow> lit ''Not specified'' | Some v \<Rightarrow> str_of v),
       f_image_size = str_of image_size,
       f_steps = str_of num_inference_steps,
       f_guidance_scale = str_of guidance_scale,
       f_safety_tolerance = str_of safety_tolerance,
       f_image_url = url_text \<rparr>"

text \<open>The lines of the document, where the texts embedded may themselves hold line feeds.\<close>

definition document_lines ::
  "('v \<Rightarrow> pystr) \<Rightarrow> datetime \<Rightarrow> pystr \<Rightarrow> 'v generation_result \<Rightarrow> pystr \<Rightarrow> 'v \<Rightarrow> 'v \<Rightarrow> 'v \<Rightarrow> 'v
     \<Rightarrow> pystr \<Rightarrow> pystr list" where
  "document_lines str_of tm prompt result model image_size num_inference_steps
       guidance_scale safety_tolerance url_text =
     [lit ''# Image Generation Results'', [], lit ''## Prompt''] @ split_nl prompt @
     [[], lit ''## Generation Details'', lit ''- **Date and Time:** '' @ strftime_seconds tm] @
     split_nl (lit ''- **Model:** '' @ model) @
     split_nl (lit ''- **Seed:** '' @ get_or_not_specified str_of (seed result)) @
     split_nl (lit ''- **NSFW Concepts Detected:** '' @
               get_or_not_specified str_of (has_nsfw_concepts result)) @
     split_nl (lit ''- **Image Size:** '' @ str_of image_size) @
     split_nl (lit ''- **Number of Inference Steps:** '' @ str_of num_inference_steps) @
     split_nl (lit ''- **Guidance Scale:** '' @ str_of guidance_scale) @
     split_nl (lit ''- **Safety Tolerance:** '' @ str_of safety_tolerance) @
     [[], lit ''## Image URL''] @ split_nl url_text @ [[], []]"

text \<open>The lines \<open>ls\<close> occur in \<open>xs\<close>, one after the other.\<close>

fun has_lines :: "pystr list \<Rightarrow> pystr list \<Rightarrow> bool" where
  "has_lines ls [] = (ls = [])"
| "has_lines ls (x # xs) = (take (length ls) (x # xs) = ls \<or> has_lines ls xs)"

text \<open>The scenario of the specification: its time and its result, and a result without keys.\<close>

definition fox_time :: datetime where
  "fox_time = \<lparr>year = 2024, month = 1, day = 2, hour = 3, minute = 4, second = 0\<rparr>"

definition fox_result :: "pyval generation_result" where
  "fox_result =
     \<lparr>images = Some [\<lparr>img_url = Some (PStr (lit ''https://x/y.png''))\<rparr>],
      seed = Some (PInt 42),
      has_nsfw_concepts = Some (PBool False)\<rparr>"

definition bare_result :: "pyval generation_result" where
  "bare_result = \<lparr>images = Some [], seed = None, has_nsfw_concepts = None\<rparr>"

text \<open>
  Small worlds for the scenarios: an empty disk at the time of the scenario, on which an
  image is kept as its bytes; a server that answers every request with a given status; a
  decoder that accepts every content and one that rejects every content.
\<close>

definition empty_disk :: "nat list disk" where
  "empty_disk = \<lparr>clock = fox_time, dirs = [], files = (\<lambda>p. None)\<rparr>"

definition serve :: "int \<Rightarrow> pystr \<Rightarrow> exn + response" where
  "serve code url = Inr \<lparr>status_code = code, content = [137, 80, 78, 71]\<rparr>"

definition decode_any :: "nat list \<Rightarrow> exn + nat list" where
  "decode_any bytes = Inr bytes"









text \<open>The property the specification states: no trailing whitespace.\<close>

definition no_trailing_space :: "pystr \<Rightarrow> bool" where
  "no_trailing_space s \<longleftrightarrow> (s = [] \<or> \<not> isspace (last s))"

text \<open>
  \<open>t\<close> is \<open>s\<close> with its trailing whitespace trimmed: \<open>s\<close> is \<open>t\<close> followed by whitespace
  only, and \<open>t\<close> does not end in whitespace.
\<close>

definition trimmed_of :: "pystr \<Rightarrow> pystr \<Rightarrow> bool" where
  "trimmed_of t s \<longleftrightarrow>
     take (length t) s = t \<and> list_all isspace (drop (length t) s) \<and> no_trailing_space t"



definition spec_charset :: "pychar \<Rightarrow> bool" where
  "spec_charset c \<longleftrightarrow> ascii_alnum c \<or> c = 32 \<or> c = 45 \<or> c = 95"

section \<open>Facts about strings\<close>

lemma lit_Nil: "lit [] = []"
  by (simp add: lit_def)

lemma lit_Cons: "lit (c # cs) = of_char c # lit cs"
  by (simp add: lit_def)

lemma rstrip_no_trailing: "no_trailing_space (rstrip s)"
proof (cases "dropWhile isspace (rev s) = []")
  case True
  then show ?thesis by (simp add: no_trailing_space_def rstrip_def)
next
  case False
  then have "\<not> isspace (hd (dropWhile isspace (rev s)))" by (rule hd_dropWhile)
  with False show ?thesis by (simp add: no_trailing_space_def rstrip_def last_rev)
qed

lemma set_rstrip: "set (rstrip s) \<subseteq> set s"
  by (auto simp: rstrip_def dest: set_dropWhileD)

lemma rstrip_prefix: "\<exists>zs. s = rstrip s @ zs"
proof -
  have "rstrip s @ rev (takeWhile isspace (rev s)) =
        rev (takeWhile isspace (rev s) @ dropWhile isspace (rev s))"
    by (simp only: rstrip_def rev_append)
  also have "\<dots> = s"
    by (simp only: takeWhile_dropWhile_id rev_rev_ident)
  finally have "s = rstrip s @ rev (takeWhile isspace (rev s))" by (rule sym)
  then show ?thesis ..
qed

lemma split_nl_not_Nil: "split_nl s \<noteq> []"
  by (cases s) simp_all

lemma split_nl_append: "split_nl (a @ 10 # b) = split_nl a @ split_nl b"
proof (induction a)
  case Nil
  show ?case by simp
next
  case (Cons c a)
  show ?case
  proof (cases "c = 10")
    case True
    with Cons show ?thesis by simp
  next
    case False
    have "hd (split_nl a @ split_nl b) = hd (split_nl a)"
      and "tl (split_nl a @ split_nl b) = tl (split_nl a) @ split_nl b"
      using split_nl_not_Nil [of a] by simp_all
    with False Cons show ?thesis by simp
  qed
qed

lemma split_nl_single: "10 \<notin> set s \<Longrightarrow> split_nl s = [s]"
  by (induction s) simp_all

lemma join_nl_Cons_Cons: "join_nl ((c # l) # ls) = c # join_nl (l # ls)"
  by (cases ls) simp_all

lemma join_nl_Nil_Cons: "ls \<noteq> [] \<Longrightarrow> join_nl ([] # ls) = 10 # join_nl ls"
  by (cases ls) simp_all

lemma join_split_nl: "join_nl (split_nl s) = s"
proof (induction s)
  case Nil
  show ?case by simp
next
  case (Cons c s)
  show ?case
  proof (cases "c = 10")
    case True
    with Cons show ?thesis by (simp add: join_nl_Nil_Cons split_nl_not_Nil)
  next
    case False
    have "hd (split_nl s) # tl (split_nl s) = split_nl s"
      using split_nl_not_Nil [of s] by simp
    with False Cons show ?thesis by (simp add: join_nl_Cons_Cons)
  qed
qed

lemma set_show_nat: "set (show_nat n) \<subseteq> {48..57}"
proof (induction n rule: show_nat.induct)
  case (1 n)
  show ?case
  proof (cases "n < 10")
    case True
    then show ?thesis by (subst show_nat.simps) simp
  next
    case False
    have "48 + n mod 10 \<in> {48..57}" by simp
    with False 1 show ?thesis by (subst show_nat.simps) simp
  qed
qed

lemma nl_notin_zero_pad: "10 \<notin> set (zero_pad w (show_nat n))"
  using set_show_nat [of n] by (auto simp: zero_pad_def)

lemma nl_notin_strftime_seconds: "10 \<notin> set (strftime_seconds t)"
  by (simp add: strftime_seconds_def nl_notin_zero_pad lit_Cons lit_Nil)

section \<open>Filename sanitization\<close>

lemma trimmed_of_rstrip: "trimmed_of (rstrip s) s"
proof -
  have s: "s = rstrip s @ rev (takeWhile isspace (rev s))"
  proof -
    have "rstrip s @ rev (takeWhile isspace (rev s)) =
        rev (takeWhile isspace (rev s) @ dropWhile isspace (rev s))"
      by (simp only: rstrip_def rev_append)
    also have "\<dots> = s"
      by (simp only: takeWhile_dropWhile_id rev_rev_ident)
    finally show ?thesis by (rule sym)
  qed
  have t: "take (length (rstrip s)) s = rstrip s"
    by (subst (2) s) simp
  have "drop (length (rstrip s)) s = rev (takeWhile isspace (rev s))"
    by (subst (2) s) simp
  moreover have "list_all isspace (rev (takeWhile isspace (rev s)))"
    by (auto simp: list_all_iff dest: set_takeWhileD)
  ultimately show ?thesis
    using t rstrip_no_trailing [of s] by (simp add: trimmed_of_def)
qed

lemma trimmed_of_unique:
  assumes "trimmed_of t s"
  shows "t = rstrip s"
proof -
  let ?ws = "drop (length t) s"
  from assms have tk: "take (length t) s = t" and ws: "list_all isspace ?ws"
    and nt: "no_trailing_space t"
    by (simp_all add: trimmed_of_def)
  have "s = take (length t) s @ ?ws" by simp
  with tk have s: "s = t @ ?ws" by simp
  have "rev s = rev ?ws @ rev t" by (subst s) simp
  moreover have "dropWhile isspace (rev ?ws @ rev t) = dropWhile isspace (rev t)"
    using ws by (intro dropWhile_append2) (simp add: list_all_iff)
  moreover have "dropWhile isspace (rev t) = rev t"
  proof (cases t rule: rev_cases)
    case Nil
    then show ?thesis by simp
  next
    case (snoc ys y)
    with nt show ?thesis by (simp add: no_trailing_space_def)
  qed
  ultimately show ?thesis by (simp add: rstrip_def)
qed

text \<open>
  Claim C2, as the code has it. For every prompt the sanitized prompt is exactly this:
  the characters of the prompt that are alphanumeric for Python (\<open>str.isalnum\<close>, which
  beyond ASCII follows the Unicode database), spaces, hyphens or underscores, in their
  order; that text with its trailing whitespace trimmed; and of the trimmed text the
  first 50 characters. So it holds only such characters and is at most 50 characters
  long. It has no trailing whitespace when the trimmed text fits in 50 characters, and
  it stays within A-Z, a-z, 0-9, space, hyphen and underscore when the prompt is ASCII.
\<close>

theorem safe_prompt_sanitized:
  "(\<forall>c \<in> set (safe_prompt U prompt). keep_char U c)
   \<and> length (safe_prompt U prompt) \<le> 50
   \<and> (\<exists>zs. filter (keep_char U) prompt = safe_prompt U prompt @ zs)
   \<and> (length (rstrip (filter (keep_char U) prompt)) \<le> 50 \<longrightarrow>
        no_trailing_space (safe_prompt U prompt))
   \<and> ((\<forall>c \<in> set prompt. c < 128) \<longrightarrow> (\<forall>c \<in> set (safe_prompt U prompt). spec_charset c))
   \<and> (\<exists>t. trimmed_of t (filter (keep_char U) prompt))
   \<and> (\<forall>t. trimmed_of t (filter (keep_char U) prompt) \<longrightarrow> safe_prompt U prompt = take 50 t)"
proof (intro conjI)
  let ?f = "filter (keep_char U) prompt"
  have sub: "set (safe_prompt U prompt) \<subseteq> set ?f"
    using set_rstrip [of ?f] set_take_subset [of 50 "rstrip ?f"]
    by (auto simp: safe_prompt_def)
  show "\<forall>c \<in> set (safe_prompt U prompt). keep_char U c"
    using sub by auto
  show "length (safe_prompt U prompt) \<le> 50"
    by (simp add: safe_prompt_def)
  show "\<exists>zs. ?f = safe_prompt U prompt @ zs"
  proof -
    obtain zs where z: "?f = rstrip ?f @ zs" using rstrip_prefix by blast
    have "rstrip ?f = take 50 (rstrip ?f) @ drop 50 (rstrip ?f)" by simp
    then have "?f = safe_prompt U prompt @ (drop 50 (rstrip ?f) @ zs)"
      using z by (metis append.assoc safe_prompt_def)
    then show ?thesis ..
  qed
  show "length (rstrip ?f) \<le> 50 \<longrightarrow> no_trailing_space (safe_prompt U prompt)"
    by (simp add: safe_prompt_def rstrip_no_trailing)
  show "(\<forall>c \<in> set prompt. c < 128) \<longrightarrow> (\<forall>c \<in> set (safe_prompt U prompt). spec_charset c)"
  proof (intro impI ballI)
    fix c assume a: "\<forall>c \<in> set prompt. c < 128" and c: "c \<in> set (safe_prompt U prompt)"
    from c sub have "c \<in> set prompt" "keep_char U c" by auto
    with a show "spec_charset c"
      by (auto simp: keep_char_def spec_charset_def isalnum_def)
  qed
  show "\<exists>t. trimmed_of t ?f"
    using trimmed_of_rstrip by blast
  show "\<forall>t. trimmed_of t ?f \<longrightarrow> safe_prompt U prompt = take 50 t"
  proof (intro allI impI)
    fix t assume "trimmed_of t ?f"
    then have "t = rstrip ?f" by (rule trimmed_of_unique)
    then show "safe_prompt U prompt = take 50 t" by (simp add: safe_prompt_def)
  qed
qed

theorem safe_prompt_sanitized_witness:
  "length (rstrip (filter (keep_char (\<lambda>c. False)) (lit ''a red fox, in snow!  ''))) \<le> 50
   \<and> list_all (\<lambda>c. c < 128) (lit ''a red fox, in snow!  '')
   \<and> trimmed_of (lit ''a red fox in snow'')
        (filter (keep_char (\<lambda>c. False)) (lit ''a red fox, in snow!  ''))
   \<and> list_all (keep_char (\<lambda>c. False)) (safe_prompt (\<lambda>c. False) (lit ''a red fox, in snow!  ''))
   \<and> no_trailing_space (safe_prompt (\<lambda>c. False) (lit ''a red fox, in snow!  ''))
   \<and> list_all spec_charset (safe_prompt (\<lambda>c. False) (lit ''a red fox, in snow!  ''))
   \<and> safe_prompt (\<lambda>c. False) (lit ''a red fox, in snow!  '') = lit ''a red fox in snow''"
proof -
  have h1: "length (rstrip (filter (keep_char (\<lambda>c. False)) (lit ''a red fox, in snow!  ''))) \<le> 50"
    by (simp add: lit_Cons lit_Nil keep_char_def isalnum_def ascii_alnum_def rstrip_def
        isspace_def)
  have h2: "\<forall>c \<in> set (lit ''a red fox, in snow!  ''). c < 128"
    by (simp add: lit_Cons lit_Nil)
  have h3: "trimmed_of (lit ''a red fox in snow'')
        (filter (keep_char (\<lambda>c. False)) (lit ''a red fox, in snow!  ''))"
    by (simp add: trimmed_of_def no_trailing_space_def lit_Cons lit_Nil keep_char_def
        isalnum_def ascii_alnum_def isspace_def)
  note inst = safe_prompt_sanitized [of "\<lambda>c. False" "lit ''a red fox, in snow!  ''"]
  from inst h3 have "safe_prompt (\<lambda>c. False) (lit ''a red fox, in snow!  '') =
      take 50 (lit ''a red fox in snow'')"
    by blast
  then have e: "safe_prompt (\<lambda>c. False) (lit ''a red fox, in snow!  '') =
      lit ''a red fox in snow''"
    by (simp add: lit_Cons lit_Nil)
  show ?thesis
    unfolding list_all_iff
    using h1 h2 h3 e inst
    by blast
qed

text \<open>
  The claim as the specification words it fails twice. A space that the cut at 50
  characters leaves at the end stays, since trimming comes first: 49 letters, a space
  and one more letter are sanitized to 49 letters and a space. And a letter outside
  ASCII is kept wherever the Unicode database calls it alphanumeric, as it does
  U+00E9.
\<close>

theorem safe_prompt_counterexample:
  "safe_prompt (\<lambda>c. False) (replicate 49 97 @ [32, 98]) = replicate 49 97 @ [32]
   \<and> \<not> no_trailing_space (safe_prompt (\<lambda>c. False) (replicate 49 97 @ [32, 98]))
   \<and> safe_prompt (\<lambda>c. c = 233) [233] = [233]
   \<and> \<not> spec_charset 233"
  by (simp add: safe_prompt_def keep_char_def isalnum_def ascii_alnum_def rstrip_def
      isspace_def no_trailing_space_def spec_charset_def)

section \<open>The runner\<close>

lemma spinner_loop_settles:
  "task (k + n) = Finished out \<Longrightarrow> (\<forall>j<n. task (k + j) = Pending) \<Longrightarrow> n < fuel \<Longrightarrow>
   spinner_loop fuel task mc k = (polling_rounds mc k n @ [Check (k + n) True], Some out)"
proof (induction n arbitrary: k fuel)
  case 0
  then obtain f where "fuel = Suc f" by (cases fuel) auto
  with 0 show ?case by simp
next
  case (Suc n)
  from Suc.prems obtain f where f: "fuel = Suc f" "n < f" by (cases fuel) auto
  from Suc.prems have p: "task k = Pending" by (metis add.right_neutral zero_less_Suc)
  have a: "task (Suc k + n) = Finished out" using Suc.prems by simp
  have b: "\<forall>j<n. task (Suc k + j) = Pending"
  proof (intro allI impI)
    fix j assume "j < n"
    then have "Suc j < Suc n" by simp
    with Suc.prems(2) have "task (k + Suc j) = Pending" by blast
    then show "task (Suc k + j) = Pending" by simp
  qed
  from Suc.IH [OF a b f(2)] p f show ?case by simp
qed

lemma spinner_loop_pending:
  "(\<forall>j<fuel. task (k + j) = Pending) \<Longrightarrow>
   spinner_loop fuel task mc k = (polling_rounds mc k fuel, None)"
proof (induction fuel arbitrary: k)
  case 0
  show ?case by simp
next
  case (Suc fuel)
  from Suc.prems have p: "task k = Pending" by (metis add.right_neutral zero_less_Suc)
  have b: "\<forall>j<fuel. task (Suc k + j) = Pending"
  proof (intro allI impI)
    fix j assume "j < fuel"
    then have "Suc j < Suc fuel" by simp
    with Suc.prems have "task (k + Suc j) = Pending" by blast
    then show "task (Suc k + j) = Pending" by simp
  qed
  from Suc.IH [OF b] p show ?case by simp
qed

lemma spinner_loop_ticks_guarded: "ticks_guarded (fst (spinner_loop fuel task mc k))"
proof (induction fuel arbitrary: k)
  case 0
  show ?case by simp
next
  case (Suc fuel)
  show ?case
  proof (cases "task k")
    case Pending
    with Suc [of "Suc k"] show ?thesis by (auto split: prod.splits)
  next
    case (Finished out)
    then show ?thesis by simp
  qed
qed

lemma spinner_loop_tick_pending:
  "Tick i m \<in> set (fst (spinner_loop fuel task mc k)) \<Longrightarrow>
   k \<le> i \<and> (\<forall>j. k \<le> j \<and> j \<le> i \<longrightarrow> task j = Pending)"
proof (induction fuel arbitrary: k)
  case 0
  then show ?case by simp
next
  case (Suc fuel)
  show ?case
  proof (cases "task k")
    case (Finished out)
    with Suc.prems show ?thesis by simp
  next
    case Pending
    with Suc.prems have "i = k \<or> Tick i m \<in> set (fst (spinner_loop fuel task mc (Suc k)))"
      by (auto split: prod.splits)
    then show ?thesis
    proof
      assume "i = k"
      with Pending show ?thesis by auto
    next
      assume "Tick i m \<in> set (fst (spinner_loop fuel task mc (Suc k)))"
      from Suc.IH [OF this] have ih: "Suc k \<le> i" "\<forall>j. Suc k \<le> j \<and> j \<le> i \<longrightarrow> task j = Pending"
        by auto
      show ?thesis
      proof (intro conjI allI impI)
        show "k \<le> i" using ih(1) by simp
        fix j assume j: "k \<le> j \<and> j \<le> i"
        show "task j = Pending"
        proof (cases "j = k")
          case True with Pending show ?thesis by simp
        next
          case False
          with j have "Suc k \<le> j \<and> j \<le> i" by auto
          with ih(2) show ?thesis by blast
        qed
      qed
    qed
  qed
qed

lemma spinner_loop_first_round:
  "task k = Pending \<Longrightarrow> spinner_loop (Suc fuel) task mc k =
     (Check k False # Tick k (mc k) # Sleep k 3 # fst (spinner_loop fuel task mc (Suc k)),
      snd (spinner_loop fuel task mc (Suc k)))"
  by (simp split: prod.splits)

lemma spinner_loop_0_None: "snd (spinner_loop 0 task mc k) = None"
  by simp


text \<open>
  Claim C4. A job that the runner first finds settled at its \<open>n\<close>-th resumption makes the
  runner return after exactly \<open>n\<close> polling rounds and one last check, with the job's own
  outcome: the result it returned, or the exception it raised, raised again. More fuel
  changes nothing, so the polling has stopped. A job that never settles keeps the runner
  polling for as long as it is run: there is no timeout.
\<close>

theorem run_with_spinner_propagates:
  "(0 < n \<and> job n = Finished out \<and> (\<forall>j. 0 < j \<and> j < n \<longrightarrow> job j = Pending) \<and> n < fuel \<longrightarrow>
      run_with_spinner fuel job mc = (polling_rounds mc 0 n @ [Check n True], Some out))
   \<and> ((\<forall>j. 0 < j \<longrightarrow> job j = Pending) \<longrightarrow>
      run_with_spinner fuel job mc = (polling_rounds mc 0 fuel, None))"
proof (intro conjI impI)
  assume a: "0 < n \<and> job n = Finished out \<and> (\<forall>j. 0 < j \<and> j < n \<longrightarrow> job j = Pending) \<and> n < fuel"
  then have "create_task job (0 + n) = Finished out"
    and "\<forall>j<n. create_task job (0 + j) = Pending"
    by (auto simp: create_task_def)
  with a show "run_with_spinner fuel job mc = (polling_rounds mc 0 n @ [Check n True], Some out)"
    unfolding run_with_spinner_def using spinner_loop_settles [of "create_task job" 0 n out fuel mc]
    by simp
next
  assume "\<forall>j. 0 < j \<longrightarrow> job j = Pending"
  then have "\<forall>j<fuel. create_task job (0 + j) = Pending"
    by (auto simp: create_task_def)
  then show "run_with_spinner fuel job mc = (polling_rounds mc 0 fuel, None)"
    unfolding run_with_spinner_def by (rule spinner_loop_pending)
qed

theorem run_with_spinner_propagates_witness:
  "run_with_spinner 5 (\<lambda>k. if k < 2 then Pending else Finished (Inr (7::nat)))
       cycle_spinner_messages =
     (polling_rounds cycle_spinner_messages 0 2 @ [Check 2 True], Some (Inr 7))
   \<and> run_with_spinner 5
       (\<lambda>k. if k < 2 then Pending else (Finished (Inl (Failure (lit ''boom''))) :: nat task_state))
       cycle_spinner_messages =
     (polling_rounds cycle_spinner_messages 0 2 @ [Check 2 True],
      Some (Inl (Failure (lit ''boom''))))
   \<and> run_with_spinner 5 (\<lambda>k. Pending :: nat task_state) cycle_spinner_messages =
     (polling_rounds cycle_spinner_messages 0 5, None)"
proof -
  let ?ok = "\<lambda>k::nat. if k < 2 then Pending else Finished (Inr (7::nat))"
  let ?bad = "\<lambda>k::nat. if k < 2 then Pending
     else (Finished (Inl (Failure (lit ''boom''))) :: nat task_state)"
  let ?never = "\<lambda>k::nat. Pending :: nat task_state"
  have h1: "0 < (2::nat) \<and> ?ok 2 = Finished (Inr 7) \<and>
      (\<forall>j. 0 < j \<and> j < 2 \<longrightarrow> ?ok j = Pending) \<and> (2::nat) < 5"
    by simp
  have h2: "0 < (2::nat) \<and> ?bad 2 = Finished (Inl (Failure (lit ''boom''))) \<and>
      (\<forall>j. 0 < j \<and> j < 2 \<longrightarrow> ?bad j = Pending) \<and> (2::nat) < 5"
    by simp
  have h3: "\<forall>j. 0 < j \<longrightarrow> ?never j = Pending"
    by simp
  show ?thesis
    using h1 h2 h3
      run_with_spinner_propagates [of 2 ?ok "Inr 7" 5 cycle_spinner_messages]
      run_with_spinner_propagates [of 2 ?bad "Inl (Failure (lit ''boom''))" 5
        cycle_spinner_messages]
      run_with_spinner_propagates [of _ ?never _ 5 cycle_spinner_messages]
    by blast
qed

text \<open>
  Claim C5. In every execution, however long it is run, each tick directly follows a
  completion check that returned \<open>False\<close>, and at the moment of a tick the task has not
  settled at any earlier or the current point.
\<close>

theorem tick_never_after_settled:
  "ticks_guarded (fst (run_with_spinner fuel job mc))
   \<and> (\<forall>k m. Tick k m \<in> set (fst (run_with_spinner fuel job mc)) \<longrightarrow>
         \<not> settled_by (create_task job) k)"
proof (intro conjI allI impI)
  show "ticks_guarded (fst (run_with_spinner fuel job mc))"
    unfolding run_with_spinner_def by (rule spinner_loop_ticks_guarded)
next
  fix k m
  assume "Tick k m \<in> set (fst (run_with_spinner fuel job mc))"
  then have "\<forall>j. 0 \<le> j \<and> j \<le> k \<longrightarrow> create_task job j = Pending"
    unfolding run_with_spinner_def using spinner_loop_tick_pending by blast
  then show "\<not> settled_by (create_task job) k"
    by (auto simp: settled_by_def list_ex_iff task_done_def)
qed

theorem tick_never_after_settled_witness:
  "Tick 1 (cycle_spinner_messages 1) \<in>
     set (fst (run_with_spinner 5 (\<lambda>k. if k < 2 then Pending else Finished (Inr (7::nat)))
       cycle_spinner_messages))
   \<and> \<not> settled_by (create_task (\<lambda>k. if k < 2 then Pending else Finished (Inr (7::nat)))) 1
   \<and> ticks_guarded (fst (run_with_spinner 5
        (\<lambda>k. if k < 2 then Pending else Finished (Inr (7::nat))) cycle_spinner_messages))"
proof -
  let ?ok = "\<lambda>k::nat. if k < 2 then Pending else Finished (Inr (7::nat))"
  have h: "Tick 1 (cycle_spinner_messages 1) \<in>
     set (fst (run_with_spinner 5 ?ok cycle_spinner_messages))"
    by (simp add: run_with_spinner_def create_task_def eval_nat_numeral)
  show ?thesis
    using h tick_never_after_settled [of 5 ?ok cycle_spinner_messages]
    by blast
qed

text \<open>
  Claim C10. A runner that has returned began with a failed check, a tick and a sleep
  of three seconds, because a task just created has not run. So it is even for a job
  that is finished as soon as it is given control: one round, then the result.
\<close>

theorem run_with_spinner_first_round:
  "(snd (run_with_spinner fuel job mc) = Some out \<longrightarrow>
      (\<exists>rest. fst (run_with_spinner fuel job mc) =
         Check 0 False # Tick 0 (mc 0) # Sleep 0 3 # rest))
   \<and> run_with_spinner (Suc (Suc fuel)) (\<lambda>k. Finished out) mc =
       ([Check 0 False, Tick 0 (mc 0), Sleep 0 3, Check 1 True], Some out)"
proof (intro conjI impI)
  assume a: "snd (run_with_spinner fuel job mc) = Some out"
  then obtain f where f: "fuel = Suc f"
    by (cases fuel) (simp_all add: run_with_spinner_def)
  have "create_task job 0 = Pending" by (simp add: create_task_def)
  then show "\<exists>rest. fst (run_with_spinner fuel job mc) =
         Check 0 False # Tick 0 (mc 0) # Sleep 0 3 # rest"
    unfolding run_with_spinner_def f by (simp only: spinner_loop_first_round fst_conv) blast
next
  show "run_with_spinner (Suc (Suc fuel)) (\<lambda>k. Finished out) mc =
       ([Check 0 False, Tick 0 (mc 0), Sleep 0 3, Check 1 True], Some out)"
    by (simp add: run_with_spinner_def create_task_def)
qed

theorem run_with_spinner_first_round_witness:
  "snd (run_with_spinner 2 (\<lambda>k. Finished (Inr (7::nat))) cycle_spinner_messages) = Some (Inr 7)
   \<and> take 3 (fst (run_with_spinner 2 (\<lambda>k. Finished (Inr (7::nat))) cycle_spinner_messages)) =
       [Check 0 False, Tick 0 (cycle_spinner_messages 0), Sleep 0 3]"
proof -
  have h: "snd (run_with_spinner 2 (\<lambda>k. Finished (Inr (7::nat))) cycle_spinner_messages) =
      Some (Inr 7)"
    by (simp add: run_with_spinner_def create_task_def eval_nat_numeral)
  show ?thesis
    using h run_with_spinner_first_round [of 2 "\<lambda>k. Finished (Inr (7::nat))"
        cycle_spinner_messages "Inr 7"]
    by auto
qed

section \<open>The metadata document\<close>

lemma startswith_Nil: "startswith s []"
  by (simp add: startswith_def)

lemma startswith_Cons: "startswith (c # s) (d # p) \<longleftrightarrow> c = d \<and> startswith s p"
  by (auto simp: startswith_def)

lemma startswith_Nil_Cons: "\<not> startswith [] (d # p)"
  by (simp add: startswith_def)

lemma startswith_append: "startswith (p @ s) p"
  by (simp add: startswith_def)

lemma nl_notin_lits:
  "10 \<notin> set (lit ''# Image Generation Results'')"
  "10 \<notin> set (lit ''## Prompt'')"
  "10 \<notin> set (lit ''## Generation Details'')"
  "10 \<notin> set (lit ''- **Date and Time:** '')"
  "10 \<notin> set (lit ''## Image URL'')"
  "10 \<notin> set (lit ''- **Model:** '')"
  by (simp_all add: lit_Cons lit_Nil)

lemma format_markdown_lines:
  assumes "format_markdown str_of tm prompt result model image_size num_inference_steps
     guidance_scale safety_tolerance = Inr doc"
  shows "\<exists>url_text. image_url_text str_of result = Inr url_text \<and> split_nl doc =
     document_lines str_of tm prompt result model image_size num_inference_steps
       guidance_scale safety_tolerance url_text"
proof -
  from assms obtain u where u: "image_url_text str_of result = Inr u"
    by (cases "image_url_text str_of result") (simp_all add: format_markdown_def)
  from assms u have doc: "doc = lit ''# Image Generation Results'' @ 10 # 10 #
          lit ''## Prompt'' @ 10 # prompt @ 10 # 10 #
          lit ''## Generation Details'' @ 10 #
          (lit ''- **Date and Time:** '' @ strftime_seconds tm) @ 10 #
          (lit ''- **Model:** '' @ model) @ 10 #
          (lit ''- **Seed:** '' @ get_or_not_specified str_of (seed result)) @ 10 #
          (lit ''- **NSFW Concepts Detected:** '' @
             get_or_not_specified str_of (has_nsfw_concepts result)) @ 10 #
          (lit ''- **Image Size:** '' @ str_of image_size) @ 10 #
          (lit ''- **Number of Inference Steps:** '' @ str_of num_inference_steps) @ 10 #
          (lit ''- **Guidance Scale:** '' @ str_of guidance_scale) @ 10 #
          (lit ''- **Safety Tolerance:** '' @ str_of safety_tolerance) @ 10 # 10 #
          lit ''## Image URL'' @ 10 # u @ [10, 10]"
    by (simp add: format_markdown_def nl_def)
  have dl: "split_nl (lit ''- **Date and Time:** '' @ strftime_seconds tm) =
      [lit ''- **Date and Time:** '' @ strftime_seconds tm]"
    by (rule split_nl_single) (simp add: nl_notin_lits nl_notin_strftime_seconds)
  have "split_nl doc = document_lines str_of tm prompt result model image_size
      num_inference_steps guidance_scale safety_tolerance u"
    unfolding doc document_lines_def
    by (simp add: split_nl_append dl
        split_nl_single [OF nl_notin_lits(1)] split_nl_single [OF nl_notin_lits(2)]
        split_nl_single [OF nl_notin_lits(3)] split_nl_single [OF nl_notin_lits(5)]
        del: append_assoc)
  with u show ?thesis by blast
qed

lemma heading_neq:
  "lit ''# Image Generation Results'' \<noteq> lit ''## Prompt''"
  "[] \<noteq> lit ''## Prompt''"
  "[] \<noteq> lit ''## Generation Details''"
  by (simp_all add: lit_Cons lit_Nil)

lemma model_label:
  "\<not> startswith (lit ''## Generation Details'') (lit ''- **Model:** '')"
  "\<not> startswith (lit ''- **Date and Time:** '' @ t) (lit ''- **Model:** '')"
  "startswith (lit ''- **Model:** '' @ m) (lit ''- **Model:** '')"
  by (simp_all add: lit_Cons lit_Nil startswith_Cons startswith_Nil)

lemma prompt_section_recovered:
  assumes doc: "format_markdown str_of tm prompt result model image_size num_inference_steps
     guidance_scale safety_tolerance = Inr doc"
    and p: "lit ''## Generation Details'' \<notin> set (split_nl prompt)"
  shows "spec_prompt_section doc = prompt"
proof -
  from format_markdown_lines [OF doc] obtain u rest where
    l: "split_nl doc = lit ''# Image Generation Results'' # [] # lit ''## Prompt'' #
         split_nl prompt @ [] # lit ''## Generation Details'' # rest"
    by (auto simp: document_lines_def)
  have tk: "takeWhile (\<lambda>l. l \<noteq> lit ''## Generation Details'')
       (split_nl prompt @ [] # lit ''## Generation Details'' # rest) = split_nl prompt @ [[]]"
    using p by (subst takeWhile_append2) (auto simp: heading_neq)
  show ?thesis
    unfolding spec_prompt_section_def l
    by (simp add: heading_neq tk butlast_append join_split_nl)
qed

lemma model_field_recovered:
  assumes doc: "format_markdown str_of tm prompt result model image_size num_inference_steps
     guidance_scale safety_tolerance = Inr doc"
    and p: "lit ''## Generation Details'' \<notin> set (split_nl prompt)"
    and m: "10 \<notin> set model"
  shows "spec_model_field doc = Some model"
proof -
  have ml: "split_nl (lit ''- **Model:** '' @ model) = [lit ''- **Model:** '' @ model]"
    by (rule split_nl_single) (simp add: nl_notin_lits m)
  from format_markdown_lines [OF doc] obtain u rest where
    l: "split_nl doc = lit ''# Image Generation Results'' # [] # lit ''## Prompt'' #
         split_nl prompt @ [] # lit ''## Generation Details'' #
         (lit ''- **Date and Time:** '' @ strftime_seconds tm) #
         (lit ''- **Model:** '' @ model) # rest"
    by (auto simp: document_lines_def ml)
  have dw: "dropWhile (\<lambda>l. l \<noteq> lit ''## Generation Details'')
       (split_nl prompt @ [] # lit ''## Generation Details'' #
         (lit ''- **Date and Time:** '' @ strftime_seconds tm) #
         (lit ''- **Model:** '' @ model) # rest) =
       lit ''## Generation Details'' # (lit ''- **Date and Time:** '' @ strftime_seconds tm) #
         (lit ''- **Model:** '' @ model) # rest"
    using p by (subst dropWhile_append2) (auto simp: heading_neq)
  show ?thesis
    unfolding spec_model_field_def l
    by (simp add: heading_neq dw model_label)
qed


lemma format_markdown_fields:
  assumes "image_url_text str_of result = Inr u"
  shows "format_markdown str_of tm prompt result model image_size num_inference_steps
      guidance_scale safety_tolerance =
    Inr (spec_template (document_fields str_of tm prompt result model image_size
          num_inference_steps guidance_scale safety_tolerance u) @ nl @ nl)"
  using assms
  by (simp add: format_markdown_def spec_template_def document_fields_def nl_def
      get_or_not_specified_def)


text \<open>
  Claim C3. For every result whose images are missing, empty, or begin with an entry
  that has a URL, the document is the template of the specification, followed by one
  blank line, filled with the prompt, the time of rendering, the model, the seed and the
  NSFW flag (each \<open>Not specified\<close> when its key is missing), the image size, the step
  count, the guidance scale, the safety tolerance, and the URL of the first image; with
  no image, the Image URL section reads \<open>No image URL available\<close>.
\<close>

theorem format_markdown_template:
  "((images result = None \<or> images result = Some []) \<longrightarrow>
      format_markdown str_of tm prompt result model image_size num_inference_steps
          guidance_scale safety_tolerance =
        Inr (spec_template (document_fields str_of tm prompt result model image_size
              num_inference_steps guidance_scale safety_tolerance
              (lit ''No image URL available'')) @ nl @ nl))
   \<and> (images result = Some (img # rest) \<and> img_url img = Some u \<longrightarrow>
      format_markdown str_of tm prompt result model image_size num_inference_steps
          guidance_scale safety_tolerance =
        Inr (spec_template (document_fields str_of tm prompt result model image_size
              num_inference_steps guidance_scale safety_tolerance (str_of u)) @ nl @ nl))"
proof (intro conjI impI)
  assume "images result = None \<or> images result = Some []"
  then have "image_url_text str_of result = Inr (lit ''No image URL available'')"
    by (auto simp: image_url_text_def)
  then show "format_markdown str_of tm prompt result model image_size num_inference_steps
          guidance_scale safety_tolerance =
        Inr (spec_template (document_fields str_of tm prompt result model image_size
              num_inference_steps guidance_scale safety_tolerance
              (lit ''No image URL available'')) @ nl @ nl)"
    by (rule format_markdown_fields)
next
  assume "images result = Some (img # rest) \<and> img_url img = Some u"
  then have "image_url_text str_of result = Inr (str_of u)"
    by (auto simp: image_url_text_def)
  then show "format_markdown str_of tm prompt result model image_size num_inference_steps
          guidance_scale safety_tolerance =
        Inr (spec_template (document_fields str_of tm prompt result model image_size
              num_inference_steps guidance_scale safety_tolerance (str_of u)) @ nl @ nl)"
    by (rule format_markdown_fields)
qed

theorem format_markdown_template_witness:
  "format_markdown py_str fox_time (lit ''a red fox in snow'') bare_result
       (lit ''fal-ai/flux/schnell'') (PStr (lit ''square_hd'')) (PInt 28) (PInt 3)
       (PStr (lit ''2'')) =
     Inr (spec_template (document_fields py_str fox_time (lit ''a red fox in snow'') bare_result
       (lit ''fal-ai/flux/schnell'') (PStr (lit ''square_hd'')) (PInt 28) (PInt 3)
       (PStr (lit ''2'')) (lit ''No image URL available'')) @ nl @ nl)
   \<and> format_markdown py_str fox_time (lit ''a red fox in snow'') fox_result
       (lit ''fal-ai/flux/schnell'') (PStr (lit ''square_hd'')) (PInt 28) (PInt 3)
       (PStr (lit ''2'')) =
     Inr (spec_template (document_fields py_str fox_time (lit ''a red fox in snow'') fox_result
       (lit ''fal-ai/flux/schnell'') (PStr (lit ''square_hd'')) (PInt 28) (PInt 3)
       (PStr (lit ''2'')) (py_str (PStr (lit ''https://x/y.png'')))) @ nl @ nl)"
proof -
  have h1: "images bare_result = None \<or> images bare_result = Some []"
    by (simp add: bare_result_def)
  have h2: "images fox_result = Some (\<lparr>img_url = Some (PStr (lit ''https://x/y.png''))\<rparr> # [])
      \<and> img_url \<lparr>img_url = Some (PStr (lit ''https://x/y.png''))\<rparr> =
          Some (PStr (lit ''https://x/y.png''))"
    by (simp add: fox_result_def)
  note a = mp [OF conjunct1 [OF format_markdown_template [of bare_result py_str fox_time
        "lit ''a red fox in snow''" "lit ''fal-ai/flux/schnell''" "PStr (lit ''square_hd'')"
        "PInt 28" "PInt 3" "PStr (lit ''2'')"]] h1]
  note b = mp [OF conjunct2 [OF format_markdown_template [of fox_result py_str fox_time
        "lit ''a red fox in snow''" "lit ''fal-ai/flux/schnell''" "PStr (lit ''square_hd'')"
        "PInt 28" "PInt 3" "PStr (lit ''2'')"
        "\<lparr>img_url = Some (PStr (lit ''https://x/y.png''))\<rparr>" "[]"
        "PStr (lit ''https://x/y.png'')"]] h2]
  from a b show ?thesis by (rule conjI)
qed

text \<open>
  Claim C8, as the code has it. When no line of the prompt is the heading
  \<open>## Generation Details\<close> and the model identifier holds no line feed, the Prompt section
  of the rendered document is the prompt and its Model field is the model identifier.
\<close>

theorem markdown_round_trip:
  "lit ''## Generation Details'' \<notin> set (split_nl prompt) \<and> 10 \<notin> set model \<and>
   format_markdown str_of tm prompt result model image_size num_inference_steps
      guidance_scale safety_tolerance = Inr doc \<longrightarrow>
   spec_prompt_section doc = prompt \<and> spec_model_field doc = Some model"
proof (intro impI conjI)
  assume a: "lit ''## Generation Details'' \<notin> set (split_nl prompt) \<and> 10 \<notin> set model \<and>
   format_markdown str_of tm prompt result model image_size num_inference_steps
      guidance_scale safety_tolerance = Inr doc"
  then have d: "format_markdown str_of tm prompt result model image_size num_inference_steps
      guidance_scale safety_tolerance = Inr doc"
    and p: "lit ''## Generation Details'' \<notin> set (split_nl prompt)"
    and m: "10 \<notin> set model"
    by simp_all
  show "spec_prompt_section doc = prompt"
    using d p by (rule prompt_section_recovered)
  show "spec_model_field doc = Some model"
    using d p m by (rule model_field_recovered)
qed


lemma strftime_seconds_fox: "strftime_seconds fox_time = lit ''2024-01-02 03:04:00''"
  by (simp add: strftime_seconds_def fox_time_def zero_pad_def show_nat.simps lit_Cons lit_Nil)

lemma strftime_filename_fox: "strftime_filename fox_time = lit ''2024-01-02-0304''"
  by (simp add: strftime_filename_def fox_time_def zero_pad_def show_nat.simps lit_Cons lit_Nil)

lemma fox_url: "image_url_text py_str fox_result = Inr (lit ''https://x/y.png'')"
  by (simp add: image_url_text_def fox_result_def)

theorem markdown_round_trip_witness:
  "lit ''## Generation Details'' \<notin> set (split_nl (lit ''a red fox in snow''))
   \<and> 10 \<notin> set (lit ''fal-ai/flux/schnell'')
   \<and> map_sum id spec_prompt_section
        (format_markdown py_str fox_time (lit ''a red fox in snow'') fox_result
           (lit ''fal-ai/flux/schnell'') (PStr (lit ''square_hd'')) (PInt 28) (PInt 3)
           (PStr (lit ''2''))) = Inr (lit ''a red fox in snow'')
   \<and> map_sum id spec_model_field
        (format_markdown py_str fox_time (lit ''a red fox in snow'') fox_result
           (lit ''fal-ai/flux/schnell'') (PStr (lit ''square_hd'')) (PInt 28) (PInt 3)
           (PStr (lit ''2''))) = Inr (Some (lit ''fal-ai/flux/schnell''))"
proof -
  have n: "10 \<notin> set (lit ''a red fox in snow'')" by (simp add: lit_Cons lit_Nil)
  have h1: "lit ''## Generation Details'' \<notin> set (split_nl (lit ''a red fox in snow''))"
    by (simp add: split_nl_single [OF n]) (simp add: lit_Cons lit_Nil)
  have h2: "10 \<notin> set (lit ''fal-ai/flux/schnell'')" by (simp add: lit_Cons lit_Nil)
  obtain doc where d: "format_markdown py_str fox_time (lit ''a red fox in snow'') fox_result
           (lit ''fal-ai/flux/schnell'') (PStr (lit ''square_hd'')) (PInt 28) (PInt 3)
           (PStr (lit ''2'')) = Inr doc"
    by (simp add: format_markdown_def fox_url)
  from h1 h2 d have "lit ''## Generation Details'' \<notin> set (split_nl (lit ''a red fox in snow''))
      \<and> 10 \<notin> set (lit ''fal-ai/flux/schnell'') \<and>
      format_markdown py_str fox_time (lit ''a red fox in snow'') fox_result
           (lit ''fal-ai/flux/schnell'') (PStr (lit ''square_hd'')) (PInt 28) (PInt 3)
           (PStr (lit ''2'')) = Inr doc"
    by simp
  note r = mp [OF markdown_round_trip this]
  from h1 h2 r show ?thesis unfolding d by simp
qed

text \<open>
  Without that condition the claim fails, whatever the parser: the template escapes
  nothing, so a prompt that continues with the text of the template and a model
  identifier that begins with it render to one and the same document. Two different
  pairs of prompt and model cannot both be read back from it; the Prompt section read
  from the document of the second pair is the prompt of the first.
\<close>

theorem markdown_round_trip_counterexample:
  "format_markdown py_str fox_time
       (lit ''p'')
       fox_result
       (lit ''x'' @ nl @ nl @ lit ''## Generation Details'' @ nl @
        lit ''- **Date and Time:** 2024-01-02 03:04:00'' @ nl @ lit ''- **Model:** m'')
       (PStr (lit ''square_hd'')) (PInt 28) (PInt 3) (PStr (lit ''2''))
   = format_markdown py_str fox_time
       (lit ''p'' @ nl @ nl @ lit ''## Generation Details'' @ nl @
        lit ''- **Date and Time:** 2024-01-02 03:04:00'' @ nl @ lit ''- **Model:** x'')
       fox_result
       (lit ''m'')
       (PStr (lit ''square_hd'')) (PInt 28) (PInt 3) (PStr (lit ''2''))
   \<and> lit ''p'' \<noteq> lit ''p'' @ nl @ nl @ lit ''## Generation Details'' @ nl @
        lit ''- **Date and Time:** 2024-01-02 03:04:00'' @ nl @ lit ''- **Model:** x''
   \<and> lit ''x'' @ nl @ nl @ lit ''## Generation Details'' @ nl @
        lit ''- **Date and Time:** 2024-01-02 03:04:00'' @ nl @ lit ''- **Model:** m'' \<noteq> lit ''m''
   \<and> map_sum id spec_prompt_section
       (format_markdown py_str fox_time
         (lit ''p'' @ nl @ nl @ lit ''## Generation Details'' @ nl @
          lit ''- **Date and Time:** 2024-01-02 03:04:00'' @ nl @ lit ''- **Model:** x'')
         fox_result
         (lit ''m'')
         (PStr (lit ''square_hd'')) (PInt 28) (PInt 3) (PStr (lit ''2''))) = Inr (lit ''p'')"
proof -
  let ?M1 = "lit ''x'' @ nl @ nl @ lit ''## Generation Details'' @ nl @
        lit ''- **Date and Time:** 2024-01-02 03:04:00'' @ nl @ lit ''- **Model:** m''"
  let ?P2 = "lit ''p'' @ nl @ nl @ lit ''## Generation Details'' @ nl @
        lit ''- **Date and Time:** 2024-01-02 03:04:00'' @ nl @ lit ''- **Model:** x''"
  have eq: "format_markdown py_str fox_time (lit ''p'') fox_result ?M1
       (PStr (lit ''square_hd'')) (PInt 28) (PInt 3) (PStr (lit ''2''))
     = format_markdown py_str fox_time ?P2 fox_result (lit ''m'')
       (PStr (lit ''square_hd'')) (PInt 28) (PInt 3) (PStr (lit ''2''))"
    by (simp add: format_markdown_def fox_url strftime_seconds_fox nl_def lit_Cons lit_Nil)
  have ne1: "lit ''p'' \<noteq> ?P2" by (simp add: lit_Cons lit_Nil nl_def)
  have ne2: "?M1 \<noteq> lit ''m''" by (simp add: lit_Cons lit_Nil nl_def)
  obtain doc where d: "format_markdown py_str fox_time (lit ''p'') fox_result ?M1
       (PStr (lit ''square_hd'')) (PInt 28) (PInt 3) (PStr (lit ''2'')) = Inr doc"
    by (simp add: format_markdown_def fox_url)
  have n: "10 \<notin> set (lit ''p'')" by (simp add: lit_Cons lit_Nil)
  have "lit ''## Generation Details'' \<notin> set (split_nl (lit ''p''))"
    by (simp add: split_nl_single [OF n]) (simp add: lit_Cons lit_Nil)
  with d have "spec_prompt_section doc = lit ''p''" by (rule prompt_section_recovered)
  with d eq have "map_sum id spec_prompt_section
       (format_markdown py_str fox_time ?P2 fox_result (lit ''m'')
         (PStr (lit ''square_hd'')) (PInt 28) (PInt 3) (PStr (lit ''2''))) = Inr (lit ''p'')"
    by simp
  with eq ne1 ne2 show ?thesis by blast
qed

section \<open>The exporter\<close>










lemma save_body_written:
  "http_get w url = Inr resp \<and> status_code resp = 200 \<and>
         image_open w (content resp) = Inr img \<and>
         makedirs w (images_folder w) s = (s1, None) \<and>
         image_save w img (image_path w s prompt) s1 = (s2, None) \<and>
         format_markdown (runtime_str w) (datetime_now w s2) prompt result model a b c d =
           Inr doc \<and>
         write_text w (markdown_path w s prompt) doc s2 = (s3, None) \<and>
         getsize w (markdown_path w s prompt) s3 = Inr n \<and> n \<noteq> 0 \<Longrightarrow>
   save_body w s url prompt result model a b c d =
     (s3, Inr (image_path w s prompt, markdown_path w s prompt))"
  by (auto simp: save_body_def Let_def image_path_def markdown_path_def)


lemma save_of_body_return:
  "save_body w s url prompt result model a b c d = (s', Inr (p, q)) \<Longrightarrow>
   save_image_and_markdown w s url prompt result model a b c d = (s', [], Inr (Some p, Some q))"
  by (simp add: save_image_and_markdown_def)











lemma safe_prompt_fox:
  "safe_prompt (\<lambda>c. False) (lit ''a red fox in snow'') = lit ''a red fox in snow''"
  by (simp add: safe_prompt_def keep_char_def isalnum_def ascii_alnum_def rstrip_def
      isspace_def lit_Cons lit_Nil)

lemma os_path_join_images:
  "\<not> startswith x (lit ''/'') \<Longrightarrow>
   os_path_join (os_path_join a (lit ''images'')) x = os_path_join a (lit ''images/'' @ x)"
  by (simp add: os_path_join_def lit_Cons lit_Nil startswith_Cons startswith_Nil)

lemma os_path_join_inject:
  "\<not> startswith x (lit ''/'') \<Longrightarrow> \<not> startswith y (lit ''/'') \<Longrightarrow>
   os_path_join a x = os_path_join a y \<longleftrightarrow> x = y"
  by (simp add: os_path_join_def)

lemma disk_world_simps:
  "script_dir (disk_world dir get decode) = dir"
  "unicode_alnum (disk_world dir get decode) = (\<lambda>c. False)"
  "runtime_str (disk_world dir get decode) = py_str"
  "datetime_now (disk_world dir get decode) = clock"
  "http_get (disk_world dir get decode) = get"
  "image_open (disk_world dir get decode) = decode"
  "makedirs (disk_world dir get decode) p d = (d\<lparr>dirs := p # dirs d\<rparr>, None)"
  "image_save (disk_world dir get decode) i p d = (d\<lparr>files := (files d)(p \<mapsto> ImageFile i)\<rparr>, None)"
  "write_text (disk_world dir get decode) p t d = (d\<lparr>files := (files d)(p \<mapsto> TextFile t)\<rparr>, None)"
  "getsize (disk_world dir get decode) = disk_getsize"
  "stdout_encodes (disk_world dir get decode) = (\<lambda>c. True)"
  "stdout_error (disk_world dir get decode) = (\<lambda>text. lit ''codec cannot encode characters'')"
  by (simp_all add: disk_world_def)

lemma fox_paths:
  assumes "clock d = fox_time"
  shows "image_path (disk_world dir get decode) d (lit ''a red fox in snow'') =
           os_path_join dir (lit ''images/2024-01-02-0304_a red fox in snow.png'')"
    and "markdown_path (disk_world dir get decode) d (lit ''a red fox in snow'') =
           os_path_join dir (lit ''images/2024-01-02-0304_a red fox in snow.md'')"
proof -
  have b: "filename_base (disk_world dir get decode) d (lit ''a red fox in snow'') =
      lit ''2024-01-02-0304_a red fox in snow''"
    using assms
    by (simp add: filename_base_def disk_world_simps strftime_filename_fox safe_prompt_fox)
      (simp add: lit_Cons lit_Nil)
  have n1: "\<not> startswith (lit ''2024-01-02-0304_a red fox in snow'' @ lit ''.png'') (lit ''/'')"
    and n2: "\<not> startswith (lit ''2024-01-02-0304_a red fox in snow'' @ lit ''.md'') (lit ''/'')"
    by (simp_all add: lit_Cons lit_Nil startswith_Cons)
  show "image_path (disk_world dir get decode) d (lit ''a red fox in snow'') =
           os_path_join dir (lit ''images/2024-01-02-0304_a red fox in snow.png'')"
    unfolding image_path_def images_folder_def b disk_world_simps os_path_join_images [OF n1]
    by (simp add: lit_Cons lit_Nil)
  show "markdown_path (disk_world dir get decode) d (lit ''a red fox in snow'') =
           os_path_join dir (lit ''images/2024-01-02-0304_a red fox in snow.md'')"
    unfolding markdown_path_def images_folder_def b disk_world_simps os_path_join_images [OF n2]
    by (simp add: lit_Cons lit_Nil)
qed

lemma fox_paths_differ:
  "os_path_join dir (lit ''images/2024-01-02-0304_a red fox in snow.png'') \<noteq>
   os_path_join dir (lit ''images/2024-01-02-0304_a red fox in snow.md'')"
proof -
  have "\<not> startswith (lit ''images/2024-01-02-0304_a red fox in snow.png'') (lit ''/'')"
    and "\<not> startswith (lit ''images/2024-01-02-0304_a red fox in snow.md'') (lit ''/'')"
    by (simp_all add: lit_Cons lit_Nil startswith_Cons)
  then show ?thesis
    by (simp add: os_path_join_inject) (simp add: lit_Cons lit_Nil)
qed

lemma utf8_size_pos: "t \<noteq> [] \<Longrightarrow> sum_list (map utf8_length t) \<noteq> 0"
  by (cases t) (simp_all add: utf8_length_def)

lemma format_markdown_not_empty:
  "format_markdown str_of tm prompt result model a b c d = Inr doc \<Longrightarrow> doc \<noteq> []"
  by (auto simp: format_markdown_def lit_Cons split: sum.splits)

lemma has_lines_Cons: "has_lines ls xs \<Longrightarrow> has_lines ls (x # xs)"
  by simp

lemma has_lines_append: "has_lines ls ys \<Longrightarrow> has_lines ls (xs @ ys)"
  by (induction xs) simp_all

lemma has_lines_prefix: "has_lines ls (ls @ ys)"
proof (cases "ls @ ys")
  case Nil
  then show ?thesis by simp
next
  case (Cons x xs)
  have "take (length ls) (ls @ ys) = ls" by simp
  then show ?thesis unfolding Cons by simp
qed


lemma fox_document_lines:
  assumes "format_markdown py_str fox_time (lit ''a red fox in snow'') fox_result
      (lit ''fal-ai/flux/schnell'') a b c e = Inr doc"
  shows "has_lines [lit ''- **Seed:** 42''] (split_nl doc)"
    and "has_lines [lit ''## Image URL'', lit ''https://x/y.png''] (split_nl doc)"
proof -
  from format_markdown_lines [OF assms] fox_url
  have l: "split_nl doc = document_lines py_str fox_time (lit ''a red fox in snow'') fox_result
      (lit ''fal-ai/flux/schnell'') a b c e (lit ''https://x/y.png'')"
    by simp
  have sd: "lit ''- **Seed:** '' @ get_or_not_specified py_str (seed fox_result) =
      lit ''- **Seed:** 42''"
    by (simp add: get_or_not_specified_def fox_result_def show_int_def show_nat.simps
        lit_Cons lit_Nil)
  have n1: "10 \<notin> set (lit ''- **Seed:** 42'')" by (simp add: lit_Cons lit_Nil)
  have n2: "10 \<notin> set (lit ''https://x/y.png'')" by (simp add: lit_Cons lit_Nil)
  show "has_lines [lit ''- **Seed:** 42''] (split_nl doc)"
    unfolding l document_lines_def sd split_nl_single [OF n1]
    apply (rule has_lines_append)
    apply (rule has_lines_append)
    apply (rule has_lines_append)
    apply (rule has_lines_append)
    apply (rule has_lines_prefix)
    done
  have t: "has_lines [lit ''## Image URL'', lit ''https://x/y.png'']
     ([[], lit ''## Image URL''] @ [lit ''https://x/y.png''] @ [[], []])"
    by simp
  show "has_lines [lit ''## Image URL'', lit ''https://x/y.png''] (split_nl doc)"
    unfolding l document_lines_def split_nl_single [OF n2]
    apply (rule has_lines_append, rule has_lines_append, rule has_lines_append,
        rule has_lines_append, rule has_lines_append)
    apply (rule has_lines_append, rule has_lines_append, rule has_lines_append,
        rule has_lines_append, rule has_lines_append)
    apply (rule t)
    done
qed


lemma disk_world_steps:
  fixes dir :: pystr and get :: "pystr \<Rightarrow> exn + response" and decode :: "nat list \<Rightarrow> exn + 'i"
    and d :: "'i disk"
  assumes c: "clock d = fox_time"
  defines "w \<equiv> disk_world dir get decode"
  defines "png \<equiv> os_path_join dir (lit ''images/2024-01-02-0304_a red fox in snow.png'')"
  defines "md \<equiv> os_path_join dir (lit ''images/2024-01-02-0304_a red fox in snow.md'')"
  shows "\<exists>s1 s2 doc s3 n.
     makedirs w (images_folder w) d = (s1, None) \<and>
     image_save w img (image_path w d (lit ''a red fox in snow'')) s1 = (s2, None) \<and>
     format_markdown (runtime_str w) (datetime_now w s2) (lit ''a red fox in snow'') fox_result
       (lit ''fal-ai/flux/schnell'') a b c e = Inr doc \<and>
     write_text w (markdown_path w d (lit ''a red fox in snow'')) doc s2 = (s3, None) \<and>
     getsize w (markdown_path w d (lit ''a red fox in snow'')) s3 = Inr n \<and> n \<noteq> 0 \<and>
     files s3 png = Some (ImageFile img) \<and> files s3 md = Some (TextFile doc) \<and>
     has_lines [lit ''- **Seed:** 42''] (split_nl doc) \<and>
     has_lines [lit ''## Image URL'', lit ''https://x/y.png''] (split_nl doc)"
proof -
  obtain doc where fm: "format_markdown py_str fox_time (lit ''a red fox in snow'') fox_result
       (lit ''fal-ai/flux/schnell'') a b c e = Inr doc"
    by (simp add: format_markdown_def fox_url)
  have ip: "image_path w d (lit ''a red fox in snow'') = png"
    and mp: "markdown_path w d (lit ''a red fox in snow'') = md"
    unfolding w_def png_def md_def using fox_paths [OF c] by simp_all
  define s1 where "s1 = d\<lparr>dirs := images_folder w # dirs d\<rparr>"
  define s2 where "s2 = s1\<lparr>files := (files s1)(png \<mapsto> ImageFile img)\<rparr>"
  define s3 where "s3 = s2\<lparr>files := (files s2)(md \<mapsto> TextFile doc)\<rparr>"
  have ne: "png \<noteq> md" unfolding png_def md_def by (rule fox_paths_differ)
  have 1: "makedirs w (images_folder w) d = (s1, None)"
    by (simp add: w_def s1_def disk_world_simps)
  have 2: "image_save w img (image_path w d (lit ''a red fox in snow'')) s1 = (s2, None)"
    unfolding ip by (simp add: w_def s2_def disk_world_simps)
  have 3: "format_markdown (runtime_str w) (datetime_now w s2) (lit ''a red fox in snow'')
       fox_result (lit ''fal-ai/flux/schnell'') a b c e = Inr doc"
    using fm c by (simp add: w_def disk_world_simps s2_def s1_def)
  have 4: "write_text w (markdown_path w d (lit ''a red fox in snow'')) doc s2 = (s3, None)"
    unfolding mp by (simp add: w_def s3_def disk_world_simps)
  have 5: "getsize w (markdown_path w d (lit ''a red fox in snow'')) s3 =
      Inr (sum_list (map utf8_length doc))"
    unfolding mp by (simp add: w_def s3_def disk_world_simps disk_getsize_def)
  have 6: "sum_list (map utf8_length doc) \<noteq> 0"
    using format_markdown_not_empty [OF fm] by (rule utf8_size_pos)
  have 7: "files s3 png = Some (ImageFile img)" "files s3 md = Some (TextFile doc)"
    using ne by (simp_all add: s3_def s2_def)
  from 1 2 3 4 5 6 7 fox_document_lines [OF fm] show ?thesis by blast
qed

text \<open>
  Claim C7. On a disk whose clock reads 2024-01-02 03:04:00, when the download of
  \<open>https://x/y.png\<close> answers 200 with a content that decodes, exporting the prompt
  \<open>a red fox in snow\<close> with the result of the scenario writes the image to
  \<open>images/2024-01-02-0304_a red fox in snow.png\<close> under the directory of the script, and a
  metadata file beside it that holds the line \<open>- **Seed:** 42\<close> and the line
  \<open>## Image URL\<close> followed by the line \<open>https://x/y.png\<close>.
\<close>

theorem export_scenario:
  "get (lit ''https://x/y.png'') = Inr resp \<and> status_code resp = 200 \<and>
   decode (content resp) = Inr img \<and> clock d = fox_time \<longrightarrow>
   (\<exists>d' doc.
      save_image_and_markdown (disk_world dir get decode) d (lit ''https://x/y.png'')
          (lit ''a red fox in snow'') fox_result (lit ''fal-ai/flux/schnell'') a b c e =
        (d', [],
         Inr (Some (os_path_join dir (lit ''images/2024-01-02-0304_a red fox in snow.png'')),
              Some (os_path_join dir (lit ''images/2024-01-02-0304_a red fox in snow.md''))))
      \<and> files d' (os_path_join dir (lit ''images/2024-01-02-0304_a red fox in snow.png'')) =
          Some (ImageFile img)
      \<and> files d' (os_path_join dir (lit ''images/2024-01-02-0304_a red fox in snow.md'')) =
          Some (TextFile doc)
      \<and> has_lines [lit ''- **Seed:** 42''] (split_nl doc)
      \<and> has_lines [lit ''## Image URL'', lit ''https://x/y.png''] (split_nl doc))"
proof
  let ?w = "disk_world dir get decode"
  let ?P = "lit ''a red fox in snow''"
  assume h: "get (lit ''https://x/y.png'') = Inr resp \<and> status_code resp = 200 \<and>
   decode (content resp) = Inr img \<and> clock d = fox_time"
  then have c: "clock d = fox_time" by simp
  from disk_world_steps [OF c, of dir get decode img a b c e]
  obtain s1 s2 doc s3 n where
    st: "makedirs ?w (images_folder ?w) d = (s1, None)"
      "image_save ?w img (image_path ?w d ?P) s1 = (s2, None)"
      "format_markdown (runtime_str ?w) (datetime_now ?w s2) ?P fox_result
         (lit ''fal-ai/flux/schnell'') a b c e = Inr doc"
      "write_text ?w (markdown_path ?w d ?P) doc s2 = (s3, None)"
      "getsize ?w (markdown_path ?w d ?P) s3 = Inr n" "n \<noteq> 0"
    and fl: "files s3 (os_path_join dir (lit ''images/2024-01-02-0304_a red fox in snow.png'')) =
        Some (ImageFile img)"
      "files s3 (os_path_join dir (lit ''images/2024-01-02-0304_a red fox in snow.md'')) =
        Some (TextFile doc)"
      "has_lines [lit ''- **Seed:** 42''] (split_nl doc)"
      "has_lines [lit ''## Image URL'', lit ''https://x/y.png''] (split_nl doc)"
    by blast
  have g: "http_get ?w (lit ''https://x/y.png'') = Inr resp"
    and o: "image_open ?w (content resp) = Inr img"
    using h by (simp_all add: disk_world_simps)
  from h have s200: "status_code resp = 200" by simp
  from g s200 o st
  have "http_get ?w (lit ''https://x/y.png'') = Inr resp \<and> status_code resp = 200 \<and>
      image_open ?w (content resp) = Inr img \<and>
      makedirs ?w (images_folder ?w) d = (s1, None) \<and>
      image_save ?w img (image_path ?w d ?P) s1 = (s2, None) \<and>
      format_markdown (runtime_str ?w) (datetime_now ?w s2) ?P fox_result
         (lit ''fal-ai/flux/schnell'') a b c e = Inr doc \<and>
      write_text ?w (markdown_path ?w d ?P) doc s2 = (s3, None) \<and>
      getsize ?w (markdown_path ?w d ?P) s3 = Inr n \<and> n \<noteq> 0"
    by simp
  then have "save_body ?w d (lit ''https://x/y.png'') ?P fox_result (lit ''fal-ai/flux/schnell'')
      a b c e = (s3, Inr (image_path ?w d ?P, markdown_path ?w d ?P))"
    by (rule save_body_written)
  then have "save_image_and_markdown ?w d (lit ''https://x/y.png'') ?P fox_result
      (lit ''fal-ai/flux/schnell'') a b c e =
      (s3, [], Inr (Some (image_path ?w d ?P), Some (markdown_path ?w d ?P)))"
    by (rule save_of_body_return)
  with fl show "\<exists>d' doc.
      save_image_and_markdown ?w d (lit ''https://x/y.png'') ?P fox_result
          (lit ''fal-ai/flux/schnell'') a b c e =
        (d', [],
         Inr (Some (os_path_join dir (lit ''images/2024-01-02-0304_a red fox in snow.png'')),
              Some (os_path_join dir (lit ''images/2024-01-02-0304_a red fox in snow.md''))))
      \<and> files d' (os_path_join dir (lit ''images/2024-01-02-0304_a red fox in snow.png'')) =
          Some (ImageFile img)
      \<and> files d' (os_path_join dir (lit ''images/2024-01-02-0304_a red fox in snow.md'')) =
          Some (TextFile doc)
      \<and> has_lines [lit ''- **Seed:** 42''] (split_nl doc)
      \<and> has_lines [lit ''## Image URL'', lit ''https://x/y.png''] (split_nl doc)"
    unfolding fox_paths [OF c] by blast
qed


lemma os_path_join_Nil: "os_path_join [] x = x"
  by (simp add: os_path_join_def)


theorem export_scenario_witness:
  "serve 200 (lit ''https://x/y.png'') = Inr \<lparr>status_code = 200, content = [137, 80, 78, 71]\<rparr>
   \<and> decode_any [137, 80, 78, 71] = Inr [137, 80, 78, 71]
   \<and> clock empty_disk = fox_time
   \<and> (\<exists>d' doc.
      save_image_and_markdown (disk_world [] (serve 200) decode_any) empty_disk
          (lit ''https://x/y.png'') (lit ''a red fox in snow'') fox_result
          (lit ''fal-ai/flux/schnell'') (PStr (lit ''square_hd'')) (PInt 28) (PInt 3)
          (PStr (lit ''2'')) =
        (d', [],
         Inr (Some (lit ''images/2024-01-02-0304_a red fox in snow.png''),
              Some (lit ''images/2024-01-02-0304_a red fox in snow.md'')))
      \<and> files d' (lit ''images/2024-01-02-0304_a red fox in snow.png'') =
          Some (ImageFile [137, 80, 78, 71])
      \<and> files d' (lit ''images/2024-01-02-0304_a red fox in snow.md'') = Some (TextFile doc)
      \<and> has_lines [lit ''- **Seed:** 42''] (split_nl doc)
      \<and> has_lines [lit ''## Image URL'', lit ''https://x/y.png''] (split_nl doc))"
proof -
  have h1: "serve 200 (lit ''https://x/y.png'') =
      Inr \<lparr>status_code = 200, content = [137, 80, 78, 71]\<rparr>"
    by (simp add: serve_def)
  have h2: "decode_any [137, 80, 78, 71] = Inr [137, 80, 78, 71]"
    by (simp add: decode_any_def)
  have h3: "clock empty_disk = fox_time"
    by (simp add: empty_disk_def)
  have h: "serve 200 (lit ''https://x/y.png'') =
        Inr \<lparr>status_code = 200, content = [137, 80, 78, 71]\<rparr> \<and>
      status_code \<lparr>status_code = 200, content = [137, 80, 78, 71]\<rparr> = 200 \<and>
      decode_any (content \<lparr>status_code = 200, content = [137, 80, 78, 71]\<rparr>) =
        Inr [137, 80, 78, 71] \<and>
      clock empty_disk = fox_time"
    using h1 h2 h3 by simp
  note r = mp [OF export_scenario [of "serve 200"
        "\<lparr>status_code = 200, content = [137, 80, 78, 71]\<rparr>" decode_any "[137, 80, 78, 71]"
        empty_disk "[]" "PStr (lit ''square_hd'')" "PInt 28" "PInt 3" "PStr (lit ''2'')"] h]
  from h1 h2 h3 r show ?thesis
    unfolding os_path_join_Nil by blast
qed

















section \<open>Reading the tuned prompt\<close>

lemma prefixes_exclusive:
  "startswith l (lit ''PROMPT:'') \<Longrightarrow> \<not> startswith l (lit ''EXPLANATION:'')"
  "startswith l (lit ''PROMPT:'') \<Longrightarrow> \<not> startswith l (lit ''SUGGESTIONS:'')"
  "startswith l (lit ''EXPLANATION:'') \<Longrightarrow> \<not> startswith l (lit ''SUGGESTIONS:'')"
  by (cases l; simp add: lit_Cons startswith_Cons startswith_Nil_Cons)+

lemma tune_section_fields:
  "tuned_prompt (tune_section v l) =
     (if startswith l (lit ''PROMPT:'') then section_text (lit ''PROMPT:'') l
      else tuned_prompt v)"
  "explanation (tune_section v l) =
     (if startswith l (lit ''EXPLANATION:'') then Some (section_text (lit ''EXPLANATION:'') l)
      else explanation v)"
  "suggestions (tune_section v l) =
     (if startswith l (lit ''SUGGESTIONS:'') then Some (section_text (lit ''SUGGESTIONS:'') l)
      else suggestions v)"
  using prefixes_exclusive [of l]
  by (auto simp: tune_section_def section_text_def)

lemma foldl_tuned_prompt:
  "tuned_prompt (foldl tune_section v ls) =
     (if filter (\<lambda>l. startswith l (lit ''PROMPT:'')) ls = [] then tuned_prompt v
      else section_text (lit ''PROMPT:'') (last (filter (\<lambda>l. startswith l (lit ''PROMPT:'')) ls)))"
  by (induction ls rule: rev_induct) (simp_all add: tune_section_fields)

lemma foldl_explanation:
  "explanation (foldl tune_section v ls) =
     (if filter (\<lambda>l. startswith l (lit ''EXPLANATION:'')) ls = [] then explanation v
      else Some (section_text (lit ''EXPLANATION:'')
             (last (filter (\<lambda>l. startswith l (lit ''EXPLANATION:'')) ls))))"
  by (induction ls rule: rev_induct) (simp_all add: tune_section_fields)

lemma foldl_suggestions:
  "suggestions (foldl tune_section v ls) =
     (if filter (\<lambda>l. startswith l (lit ''SUGGESTIONS:'')) ls = [] then suggestions v
      else Some (section_text (lit ''SUGGESTIONS:'')
             (last (filter (\<lambda>l. startswith l (lit ''SUGGESTIONS:'')) ls))))"
  by (induction ls rule: rev_induct) (simp_all add: tune_section_fields)

text \<open>
  Claim C6, as the code has it. The text is split at line feeds and each line is tried
  against the three prefixes; a line that starts with none of them changes nothing. Each
  matching line overwrites what an earlier one gave, so the tuned prompt is the text of
  the last line that starts with \<open>PROMPT:\<close>, or the tuned prompt held before when there
  is no such line. When the text has a line for the explanation and a line for the
  suggestions, the page shows the tuned prompt, the explanation and the suggestions,
  each from the last line with its prefix, and nothing is raised.
\<close>

theorem tune_sections_last_match:
  "tuned_prompt (tune_sections previous tuned_result) =
     (if matching_lines (lit ''PROMPT:'') tuned_result = [] then previous
      else section_text (lit ''PROMPT:'') (last (matching_lines (lit ''PROMPT:'') tuned_result)))
   \<and> (matching_lines (lit ''EXPLANATION:'') tuned_result \<noteq> [] \<and>
       matching_lines (lit ''SUGGESTIONS:'') tuned_result \<noteq> [] \<longrightarrow>
       tune_prompt_view previous tuned_result =
         ([lit ''Tuned Prompt:'',
           tuned_prompt (tune_sections previous tuned_result),
           lit ''Explanation of changes:'',
           section_text (lit ''EXPLANATION:'')
             (last (matching_lines (lit ''EXPLANATION:'') tuned_result)),
           lit ''Additional suggestions:'',
           section_text (lit ''SUGGESTIONS:'')
             (last (matching_lines (lit ''SUGGESTIONS:'') tuned_result))],
          None))"
proof (intro conjI impI)
  show "tuned_prompt (tune_sections previous tuned_result) =
     (if matching_lines (lit ''PROMPT:'') tuned_result = [] then previous
      else section_text (lit ''PROMPT:'') (last (matching_lines (lit ''PROMPT:'') tuned_result)))"
    by (simp add: tune_sections_def matching_lines_def foldl_tuned_prompt)
next
  assume h: "matching_lines (lit ''EXPLANATION:'') tuned_result \<noteq> [] \<and>
       matching_lines (lit ''SUGGESTIONS:'') tuned_result \<noteq> []"
  then have e: "explanation (tune_sections previous tuned_result) =
      Some (section_text (lit ''EXPLANATION:'')
             (last (matching_lines (lit ''EXPLANATION:'') tuned_result)))"
    and g: "suggestions (tune_sections previous tuned_result) =
      Some (section_text (lit ''SUGGESTIONS:'')
             (last (matching_lines (lit ''SUGGESTIONS:'') tuned_result)))"
    by (simp_all add: tune_sections_def matching_lines_def foldl_explanation foldl_suggestions)
  show "tune_prompt_view previous tuned_result =
         ([lit ''Tuned Prompt:'',
           tuned_prompt (tune_sections previous tuned_result),
           lit ''Explanation of changes:'',
           section_text (lit ''EXPLANATION:'')
             (last (matching_lines (lit ''EXPLANATION:'') tuned_result)),
           lit ''Additional suggestions:'',
           section_text (lit ''SUGGESTIONS:'')
             (last (matching_lines (lit ''SUGGESTIONS:'') tuned_result))],
          None)"
    by (simp add: tune_prompt_view_def tune_display_def e g)
qed



text \<open>
  Without a line for the explanation, or without one for the suggestions, the display
  reads a local that was never bound.
\<close>

lemma tune_view_missing_section:
  "matching_lines (lit ''EXPLANATION:'') tuned_result = [] \<Longrightarrow>
   snd (tune_prompt_view previous tuned_result) = Some (UnboundLocalError (lit ''explanation''))"
  "matching_lines (lit ''EXPLANATION:'') tuned_result \<noteq> [] \<Longrightarrow>
   matching_lines (lit ''SUGGESTIONS:'') tuned_result = [] \<Longrightarrow>
   snd (tune_prompt_view previous tuned_result) = Some (UnboundLocalError (lit ''suggestions''))"
  by (simp_all add: tune_prompt_view_def tune_display_def tune_sections_def matching_lines_def
      foldl_explanation foldl_suggestions)


lemma split_nl_Cons_case:
  "split_nl (c # cs) =
     (if c = 10 then [] # split_nl cs
      else (case split_nl cs of [] \<Rightarrow> [[c]] | l # ls \<Rightarrow> (c # l) # ls))"
  using split_nl_not_Nil [of cs] by (cases "split_nl cs") simp_all

lemmas eval_text = lit_Cons lit_Nil nl_def split_nl_Cons_case
  startswith_Cons startswith_Nil startswith_Nil_Cons
  strip_def lstrip_def rstrip_def isspace_def

text \<open>
  The claim as the specification words it fails. Of two lines that start with
  \<open>PROMPT:\<close> the second is shown, not the first. And a text with no line for the
  explanation ends the display with \<open>UnboundLocalError\<close>, not with an empty field.
\<close>

theorem tune_sections_last_match_counterexample:
  "tune_prompt_view []
      (lit ''PROMPT: a'' @ nl @ lit ''PROMPT: b'' @ nl @ lit ''EXPLANATION: e'' @ nl @
       lit ''SUGGESTIONS: s'') =
     ([lit ''Tuned Prompt:'', lit ''b'', lit ''Explanation of changes:'', lit ''e'',
       lit ''Additional suggestions:'', lit ''s''], None)
   \<and> hd (matching_lines (lit ''PROMPT:'')
        (lit ''PROMPT: a'' @ nl @ lit ''PROMPT: b'' @ nl @ lit ''EXPLANATION: e'' @ nl @
         lit ''SUGGESTIONS: s'')) = lit ''PROMPT: a''
   \<and> tune_prompt_view [] (lit ''PROMPT: a'') =
     ([lit ''Tuned Prompt:'', lit ''a'', lit ''Explanation of changes:''],
      Some (UnboundLocalError (lit ''explanation'')))"
  by (simp add: tune_prompt_view_def tune_display_def tune_sections_def tune_section_def
      matching_lines_def eval_text del: split_nl.simps(2))


theorem tune_sections_last_match_witness:
  "matching_lines (lit ''EXPLANATION:'')
      (lit ''PROMPT: a fox'' @ nl @ lit ''notes'' @ nl @ lit ''EXPLANATION: e'' @ nl @
       lit ''SUGGESTIONS: s'') \<noteq> []
   \<and> matching_lines (lit ''SUGGESTIONS:'')
      (lit ''PROMPT: a fox'' @ nl @ lit ''notes'' @ nl @ lit ''EXPLANATION: e'' @ nl @
       lit ''SUGGESTIONS: s'') \<noteq> []
   \<and> tune_prompt_view (lit ''old'')
      (lit ''PROMPT: a fox'' @ nl @ lit ''notes'' @ nl @ lit ''EXPLANATION: e'' @ nl @
       lit ''SUGGESTIONS: s'') =
     ([lit ''Tuned Prompt:'', lit ''a fox'', lit ''Explanation of changes:'', lit ''e'',
       lit ''Additional suggestions:'', lit ''s''], None)"
proof -
  let ?T = "lit ''PROMPT: a fox'' @ nl @ lit ''notes'' @ nl @ lit ''EXPLANATION: e'' @ nl @
       lit ''SUGGESTIONS: s''"
  have h: "matching_lines (lit ''EXPLANATION:'') ?T \<noteq> [] \<and>
      matching_lines (lit ''SUGGESTIONS:'') ?T \<noteq> []"
    by (simp add: matching_lines_def eval_text del: split_nl.simps(2))
  have p: "matching_lines (lit ''PROMPT:'') ?T \<noteq> []"
    by (simp add: matching_lines_def eval_text del: split_nl.simps(2))
  have f: "section_text (lit ''PROMPT:'') (last (matching_lines (lit ''PROMPT:'') ?T)) =
        lit ''a fox''"
      "section_text (lit ''EXPLANATION:'') (last (matching_lines (lit ''EXPLANATION:'') ?T)) =
        lit ''e''"
      "section_text (lit ''SUGGESTIONS:'') (last (matching_lines (lit ''SUGGESTIONS:'') ?T)) =
        lit ''s''"
    by (simp_all add: matching_lines_def section_text_def eval_text del: split_nl.simps(2))
  note inst = tune_sections_last_match [of "lit ''old''" ?T]
  from conjunct1 [OF inst] p f(1)
  have t: "tuned_prompt (tune_sections (lit ''old'') ?T) = lit ''a fox''" by simp
  from mp [OF conjunct2 [OF inst] h]
  have "tune_prompt_view (lit ''old'') ?T =
     ([lit ''Tuned Prompt:'', lit ''a fox'', lit ''Explanation of changes:'', lit ''e'',
       lit ''Additional suggestions:'', lit ''s''], None)"
    unfolding t f by simp
  with h show ?thesis by blast
qed

end
